theory Spec2Isabelle
  imports Main "HOL-Library.AList"
begin

section \<open>JSON values and the JavaScript operations applied to them\<close>

text \<open>
  The server (\<^verbatim>\<open>server.js\<close>) keeps two collections, users and activity events, as JSON
  arrays in two files and never checks the type of what it reads from a request or from a
  file. The values are therefore modelled untyped, as JSON: a number is an integer-valued
  double (the data model's counts are integers; fractions are not modelled), an object is
  the list of its members in insertion order, the first binding of a key being the member. \<open>undefined\<close>, which is not a JSON value but is what reading
  an absent member gives, is \<open>None\<close>.
\<close>

datatype json =
    JNull
  | JBool bool
  | JNum int
  | JStr string
  | JArr "json list"
  | JObj "(string \<times> json) list"

type_synonym jsval = "json option"

datatype error = ENOENT | EACCES | SyntaxError | TypeError

text \<open>\<^verbatim>\<open>!x\<close> is false exactly for a truthy \<open>x\<close>.\<close>

fun truthy :: "jsval \<Rightarrow> bool" where
  "truthy None = False"
| "truthy (Some JNull) = False"
| "truthy (Some (JBool b)) = b"
| "truthy (Some (JNum n)) = (n \<noteq> 0)"
| "truthy (Some (JStr s)) = (s \<noteq> [])"
| "truthy (Some (JArr xs)) = True"
| "truthy (Some (JObj kvs)) = True"

text \<open>
  \<^verbatim>\<open>a === b\<close>, for a value read from a stored record and a value of the request or a
  literal: primitives are compared by type and value; an array or an object is equal only
  to itself, and the two sides are never the same object here, since each comes out of its
  own \<^verbatim>\<open>JSON.parse\<close>.
\<close>

fun reference_type :: "jsval \<Rightarrow> bool" where
  "reference_type (Some (JArr xs)) = True"
| "reference_type (Some (JObj kvs)) = True"
| "reference_type _ = False"

definition strict_eq :: "jsval \<Rightarrow> jsval \<Rightarrow> bool" where
  "strict_eq a b = (a = b \<and> \<not> reference_type a)"

text \<open>\<^verbatim>\<open>a || d\<close> where \<open>d\<close> is a defined value.\<close>

definition js_or :: "jsval \<Rightarrow> json \<Rightarrow> json" where
  "js_or a d = (case a of None \<Rightarrow> d | Some v \<Rightarrow> if truthy a then v else d)"

text \<open>
  \<^verbatim>\<open>u.k\<close> for the member names the server reads (\<open>id\<close>, \<open>email\<close>, \<open>lastActive\<close>,
  \<open>action\<close>, \<open>messagesSent\<close>): a member of an object, \<open>undefined\<close> on a number, a
  boolean, a string or an array (none of these names is inherited from a prototype), and
  a \<open>TypeError\<close> on \<open>null\<close>.
\<close>

fun field :: "json \<Rightarrow> string \<Rightarrow> jsval" where
  "field (JObj kvs) k = map_of kvs k"
| "field _ k = None"

definition get_prop :: "json \<Rightarrow> string \<Rightarrow> error + jsval" where
  "get_prop u k = (if u = JNull then Inl TypeError else Inr (field u k))"

text \<open>
  \<^verbatim>\<open>u.k = v\<close>: on an object the member is replaced where it stands or added at the end;
  on \<open>null\<close> it is a \<open>TypeError\<close>; on a primitive it is ignored (the file is not in
  strict mode), and on an array it sets a named property that \<^verbatim>\<open>JSON.stringify\<close> does
  not write.
\<close>

fun set_prop :: "json \<Rightarrow> string \<Rightarrow> json \<Rightarrow> error + json" where
  "set_prop JNull k v = Inl TypeError"
| "set_prop (JObj kvs) k v = Inr (JObj (AList.update k v kvs))"
| "set_prop u k v = Inr u"

text \<open>
  An object literal as \<^verbatim>\<open>JSON.stringify\<close> writes it, to a file or into a response: a
  member whose value is \<open>undefined\<close> is left out.
\<close>

fun members :: "(string \<times> jsval) list \<Rightarrow> (string \<times> json) list" where
  "members [] = []"
| "members ((k, None) # kvs) = members kvs"
| "members ((k, Some v) # kvs) = (k, v) # members kvs"

definition js_object :: "(string \<times> jsval) list \<Rightarrow> json" where
  "js_object kvs = JObj (members kvs)"

text \<open>
  The array methods. A value that is not an array has none of \<open>find\<close>, \<open>findIndex\<close>,
  \<open>filter\<close>, \<open>push\<close> as a function (a JSON object may have a member of that name, but
  never a callable one), so calling one is a \<open>TypeError\<close>. The callbacks can throw, which
  ends the iteration.
\<close>

fun as_array :: "json \<Rightarrow> error + json list" where
  "as_array (JArr xs) = Inr xs"
| "as_array _ = Inl TypeError"

fun js_find :: "(json \<Rightarrow> error + bool) \<Rightarrow> json list \<Rightarrow> error + jsval" where
  "js_find p [] = Inr None"
| "js_find p (x # xs) =
     (case p x of
        Inl e \<Rightarrow> Inl e
      | Inr b \<Rightarrow> if b then Inr (Some x) else js_find p xs)"

text \<open>\<open>findIndex\<close>: \<open>None\<close> stands for the result \<open>-1\<close>.\<close>

fun js_findIndex :: "(json \<Rightarrow> error + bool) \<Rightarrow> json list \<Rightarrow> error + nat option" where
  "js_findIndex p [] = Inr None"
| "js_findIndex p (x # xs) =
     (case p x of
        Inl e \<Rightarrow> Inl e
      | Inr b \<Rightarrow>
          if b then Inr (Some 0)
          else (case js_findIndex p xs of
                  Inl e \<Rightarrow> Inl e
                | Inr None \<Rightarrow> Inr None
                | Inr (Some i) \<Rightarrow> Inr (Some (Suc i))))"

fun js_filter :: "(json \<Rightarrow> error + bool) \<Rightarrow> json list \<Rightarrow> error + json list" where
  "js_filter p [] = Inr []"
| "js_filter p (x # xs) =
     (case p x of
        Inl e \<Rightarrow> Inl e
      | Inr b \<Rightarrow>
          (case js_filter p xs of
             Inl e \<Rightarrow> Inl e
           | Inr ys \<Rightarrow> Inr (if b then x # ys else ys)))"

fun js_reduce :: "('a \<Rightarrow> json \<Rightarrow> error + 'a) \<Rightarrow> json list \<Rightarrow> 'a \<Rightarrow> error + 'a" where
  "js_reduce f [] acc = Inr acc"
| "js_reduce f (x # xs) acc =
     (case f acc x of
        Inl e \<Rightarrow> Inl e
      | Inr acc' \<Rightarrow> js_reduce f xs acc')"

text \<open>
  Numbers are IEEE doubles. The numbers of the model are the integer-valued ones: \<open>JNum n\<close>
  stands for the double of value \<open>n\<close>. Every integer of magnitude up to \<open>2^53\<close> is a
  double; a sum of two integer-valued doubles is rounded to the nearest double (ties to the
  even significand of 53 bits), which is again an integer, or is \<open>Infinity\<close> from
  \<open>2^1024 - 2^970\<close> on. \<open>Infinity\<close> is no JSON value: it is a value of a sum only, and
  \<^verbatim>\<open>JSON.stringify\<close> writes it as \<open>null\<close>.
\<close>

datatype jsnumber = Finite int | PosInfinity | NegInfinity

fun bit_length :: "nat \<Rightarrow> nat" where
  "bit_length n = (if n = 0 then 0 else Suc (bit_length (n div 2)))"

definition round_double :: "int \<Rightarrow> jsnumber" where
  "round_double x =
     (if \<bar>x\<bar> \<le> 2 ^ 53 then Finite x
      else
        (let a = nat \<bar>x\<bar>;
             e = bit_length a - 53;
             q = a div 2 ^ e;
             r = a mod 2 ^ e;
             q' = (if 2 ^ e < 2 * r \<or> (2 * r = 2 ^ e \<and> odd q) then q + 1 else q);
             y = q' * 2 ^ e
         in if 2 ^ 1024 \<le> y then (if x < 0 then NegInfinity else PosInfinity)
            else Finite (if x < 0 then - int y else int y)))"

fun add_double :: "jsnumber \<Rightarrow> int \<Rightarrow> jsnumber" where
  "add_double (Finite a) b = round_double (a + b)"
| "add_double PosInfinity b = PosInfinity"
| "add_double NegInfinity b = NegInfinity"

text \<open>
  A number as a string (\<^verbatim>\<open>Number::toString\<close>): the shortest decimal digits that round
  to the number, the closest such when there are several, followed by zeros up to 21
  digits in all, and in exponent form beyond. \<open>shortest x j\<close> looks for a multiple of
  \<open>10^j\<close> next to \<open>x\<close> that rounds to \<open>x\<close>, from the fewest digits on.
\<close>

fun show_nat :: "nat \<Rightarrow> string" where
  "show_nat n =
     (if n < 10 then [''0123456789'' ! n]
      else show_nat (n div 10) @ [''0123456789'' ! (n mod 10)])"

fun shortest :: "nat \<Rightarrow> nat \<Rightarrow> nat" where
  "shortest x 0 = x"
| "shortest x (Suc j) =
     (let p = 10 ^ Suc j;
          lo = (x div p) * p;
          hi = lo + p;
          lo_ok = (round_double (int lo) = Finite (int x));
          hi_ok = (round_double (int hi) = Finite (int x))
      in if lo_ok \<and> hi_ok
         then (if x - lo < hi - x then lo
               else if hi - x < x - lo then hi
               else if even (x div p) then lo else hi)
         else if lo_ok then lo
         else if hi_ok then hi
         else shortest x j)"

definition exponent_form :: "string \<Rightarrow> string" where
  "exponent_form d =
     (case rev (dropWhile (\<lambda>c. c = CHR ''0'') (rev d)) of
        [] \<Rightarrow> d
      | [c] \<Rightarrow> [c] @ ''e+'' @ show_nat (length d - 1)
      | c # cs \<Rightarrow> c # CHR ''.'' # cs @ ''e+'' @ show_nat (length d - 1))"

definition magnitude_to_string :: "nat \<Rightarrow> string" where
  "magnitude_to_string x =
     (let d = show_nat (shortest x (length (show_nat x) - 1))
      in if length d \<le> 21 then d else exponent_form d)"

fun number_to_string :: "jsnumber \<Rightarrow> string" where
  "number_to_string PosInfinity = ''Infinity''"
| "number_to_string NegInfinity = ''-Infinity''"
| "number_to_string (Finite i) =
     (if i < 0 then CHR ''-'' # magnitude_to_string (nat (- i)) else magnitude_to_string (nat i))"

text \<open>
  The binary \<^verbatim>\<open>+\<close> of the sum: the left operand is the number or string summed so far,
  the right one a JSON value. The right operand is first made primitive: an array becomes
  its elements joined by commas (\<open>null\<close> elements as the empty string), an object becomes
  \<^verbatim>\<open>[object Object]\<close>, unless it has a member \<open>toString\<close> of its own, which hides the
  inherited method and is not callable: then the conversion is a \<open>TypeError\<close>. If either
  operand is a string the result is the concatenation, otherwise the sum of the numbers as
  doubles (\<open>null\<close> counts 0, \<open>true\<close> 1).
\<close>

fun join :: "string list \<Rightarrow> string" where
  "join [] = []"
| "join [x] = x"
| "join (x # y # zs) = x @ '','' @ join (y # zs)"

fun collect :: "(error + 'a) list \<Rightarrow> error + 'a list" where
  "collect [] = Inr []"
| "collect (Inl e # rs) = Inl e"
| "collect (Inr x # rs) = (case collect rs of Inl e \<Rightarrow> Inl e | Inr xs \<Rightarrow> Inr (x # xs))"

fun to_str :: "json \<Rightarrow> error + string" where
  "to_str JNull = Inr ''null''"
| "to_str (JBool b) = Inr (if b then ''true'' else ''false'')"
| "to_str (JNum n) = Inr (number_to_string (Finite n))"
| "to_str (JStr s) = Inr s"
| "to_str (JArr xs) =
     (case collect (map (\<lambda>x. if x = JNull then Inr [] else to_str x) xs) of
        Inl e \<Rightarrow> Inl e
      | Inr ss \<Rightarrow> Inr (join ss))"
| "to_str (JObj kvs) =
     (if ''toString'' \<in> fst ` set kvs then Inl TypeError else Inr ''[object Object]'')"

fun to_primitive :: "json \<Rightarrow> error + json" where
  "to_primitive (JArr xs) =
     (case to_str (JArr xs) of Inl e \<Rightarrow> Inl e | Inr t \<Rightarrow> Inr (JStr t))"
| "to_primitive (JObj kvs) =
     (case to_str (JObj kvs) of Inl e \<Rightarrow> Inl e | Inr t \<Rightarrow> Inr (JStr t))"
| "to_primitive v = Inr v"

fun is_string :: "json \<Rightarrow> bool" where
  "is_string (JStr t) = True"
| "is_string _ = False"

text \<open>\<open>to_number\<close> is applied to a primitive that is not a string only.\<close>

fun to_number :: "json \<Rightarrow> int" where
  "to_number (JNum n) = n"
| "to_number (JBool b) = (if b then 1 else 0)"
| "to_number _ = 0"

datatype summed = Number jsnumber | Text string

definition js_add :: "summed \<Rightarrow> json \<Rightarrow> error + summed" where
  "js_add a b =
     (case to_primitive b of
        Inl e \<Rightarrow> Inl e
      | Inr pb \<Rightarrow>
          (case a of
             Text ta \<Rightarrow>
               (case to_str pb of Inl e \<Rightarrow> Inl e | Inr tb \<Rightarrow> Inr (Text (ta @ tb)))
           | Number x \<Rightarrow>
               if is_string pb
               then (case to_str pb of
                       Inl e \<Rightarrow> Inl e
                     | Inr tb \<Rightarrow> Inr (Text (number_to_string x @ tb)))
               else Inr (Number (add_double x (to_number pb)))))"

text \<open>The sum as \<^verbatim>\<open>res.json\<close> writes it.\<close>

fun written :: "summed \<Rightarrow> json" where
  "written (Number (Finite n)) = JNum n"
| "written (Number PosInfinity) = JNull"
| "written (Number NegInfinity) = JNull"
| "written (Text t) = JStr t"

section \<open>The storage directory and its two files\<close>

text \<open>
  \<^verbatim>\<open>DATA_DIR\<close> is either missing (and then \<^verbatim>\<open>mkdir\<close> can create it or not) or a
  directory holding \<^verbatim>\<open>users.json\<close> and \<^verbatim>\<open>activity.json\<close>, each absent or present
  with its permissions. The text of a file is represented by what \<^verbatim>\<open>JSON.parse\<close> makes
  of it: a syntax error or a value; \<^verbatim>\<open>JSON.stringify\<close> of a value is a text that
  parses back to it. A failed write leaves the file as it was.
\<close>

datatype content = Malformed | Doc json

datatype datafile = Absent | Present (readable: bool) (writable: bool) (content: content)

datatype path = USERS_FILE | ACTIVITY_FILE

datatype storage =
    NoDir (creatable: bool)
  | Dir (creatable: bool) (users_file: datafile) (activity_file: datafile)

fun file_at :: "storage \<Rightarrow> path \<Rightarrow> datafile" where
  "file_at (NoDir c) p = Absent"
| "file_at (Dir c u a) USERS_FILE = u"
| "file_at (Dir c u a) ACTIVITY_FILE = a"

fun put_file :: "storage \<Rightarrow> path \<Rightarrow> datafile \<Rightarrow> storage" where
  "put_file (NoDir c) p f = NoDir c"
| "put_file (Dir c u a) USERS_FILE f = Dir c f a"
| "put_file (Dir c u a) ACTIVITY_FILE f = Dir c u f"

text \<open>\<^verbatim>\<open>fs.mkdir(DATA_DIR, { recursive: true })\<close>: no error when the directory exists.\<close>

fun fs_mkdir :: "storage \<Rightarrow> error + storage" where
  "fs_mkdir (NoDir c) = (if c then Inr (Dir True Absent Absent) else Inl EACCES)"
| "fs_mkdir (Dir c u a) = Inr (Dir c u a)"

definition fs_access :: "storage \<Rightarrow> path \<Rightarrow> error + unit" where
  "fs_access s p = (case file_at s p of Absent \<Rightarrow> Inl ENOENT | Present r w c \<Rightarrow> Inr ())"

definition fs_readFile :: "storage \<Rightarrow> path \<Rightarrow> error + content" where
  "fs_readFile s p =
     (case file_at s p of
        Absent \<Rightarrow> Inl ENOENT
      | Present r w c \<Rightarrow> if r then Inr c else Inl EACCES)"

fun fs_writeFile :: "storage \<Rightarrow> path \<Rightarrow> content \<Rightarrow> error + storage" where
  "fs_writeFile (NoDir c) p d = Inl ENOENT"
| "fs_writeFile (Dir c u a) p d =
     (case file_at (Dir c u a) p of
        Absent \<Rightarrow>
          if c then Inr (put_file (Dir c u a) p (Present True True d)) else Inl EACCES
      | Present r w old \<Rightarrow>
          if w then Inr (put_file (Dir c u a) p (Present r w d)) else Inl EACCES)"

fun JSON_parse :: "content \<Rightarrow> error + json" where
  "JSON_parse Malformed = Inl SyntaxError"
| "JSON_parse (Doc v) = Inr v"

definition JSON_stringify :: "json \<Rightarrow> content" where
  "JSON_stringify v = Doc v"

subsection \<open>initializeStorage\<close>

text \<open>
  Each inner \<^verbatim>\<open>try\<close> checks one file with \<^verbatim>\<open>fs.access\<close> and writes \<^verbatim>\<open>[]\<close> when the
  check throws; an error of \<^verbatim>\<open>mkdir\<close> or of a write reaches the outer \<^verbatim>\<open>catch\<close>, which
  logs it and ends the initialization there.
\<close>

definition init_file :: "storage \<Rightarrow> path \<Rightarrow> error + storage" where
  "init_file s p =
     (case fs_access s p of
        Inr ok \<Rightarrow> Inr s
      | Inl e \<Rightarrow> fs_writeFile s p (JSON_stringify (JArr [])))"

definition initializeStorage :: "storage \<Rightarrow> storage" where
  "initializeStorage s =
     (case fs_mkdir s of
        Inl e \<Rightarrow> s
      | Inr s1 \<Rightarrow>
          (case init_file s1 USERS_FILE of
             Inl e \<Rightarrow> s1
           | Inr s2 \<Rightarrow>
               (case init_file s2 ACTIVITY_FILE of
                  Inl e \<Rightarrow> s2
                | Inr s3 \<Rightarrow> s3)))"

subsection \<open>readUsers, writeUsers, readActivity, writeActivity\<close>

definition read_json :: "storage \<Rightarrow> path \<Rightarrow> json" where
  "read_json s p =
     (case fs_readFile s p of
        Inl e \<Rightarrow> JArr []
      | Inr data \<Rightarrow> (case JSON_parse data of Inl e \<Rightarrow> JArr [] | Inr v \<Rightarrow> v))"

definition readUsers :: "storage \<Rightarrow> json" where
  "readUsers s = read_json s USERS_FILE"

definition writeUsers :: "json \<Rightarrow> storage \<Rightarrow> error + storage" where
  "writeUsers users s = fs_writeFile s USERS_FILE (JSON_stringify users)"

definition readActivity :: "storage \<Rightarrow> json" where
  "readActivity s = read_json s ACTIVITY_FILE"

definition writeActivity :: "json \<Rightarrow> storage \<Rightarrow> error + storage" where
  "writeActivity activity s = fs_writeFile s ACTIVITY_FILE (JSON_stringify activity)"

section \<open>The request handlers\<close>

text \<open>
  A handler takes the members of the request's JSON object (\<^verbatim>\<open>req.body\<close>), the storage,
  and one string for each place where it evaluates \<^verbatim>\<open>new Date().toISOString()\<close>; it
  returns the response (status and JSON body) and the storage it leaves. An exception
  inside the handler's \<^verbatim>\<open>try\<close> is caught and answered with status 500; what was written
  before it stays written.
\<close>

datatype reply = Reply (status: nat) (body: json)

definition missing_required_fields :: json where
  "missing_required_fields = js_object [(''error'', Some (JStr ''Missing required fields''))]"

subsection \<open>POST /api/register\<close>

text \<open>The callback \<^verbatim>\<open>u => u.id === id || u.email === email\<close>.\<close>

definition same_user :: "jsval \<Rightarrow> jsval \<Rightarrow> json \<Rightarrow> error + bool" where
  "same_user id' email u =
     (case get_prop u ''id'' of
        Inl e \<Rightarrow> Inl e
      | Inr uid \<Rightarrow>
          if strict_eq uid id' then Inr True
          else (case get_prop u ''email'' of
                  Inl e \<Rightarrow> Inl e
                | Inr uemail \<Rightarrow> Inr (strict_eq uemail email)))"

definition registration_failed :: reply where
  "registration_failed = Reply 500 (js_object [(''error'', Some (JStr ''Registration failed''))])"

definition already_registered :: "jsval \<Rightarrow> reply" where
  "already_registered existingUser =
     Reply 200 (js_object [(''message'', Some (JStr ''User already registered'')),
                           (''user'', existingUser)])"

text \<open>The object \<open>newUser\<close> of lines 94 to 101.\<close>

definition new_user :: "string \<Rightarrow> string \<Rightarrow> (string \<times> json) list \<Rightarrow> json" where
  "new_user now1 now2 req =
     js_object [(''id'', map_of req ''id''),
                (''username'', map_of req ''username''),
                (''email'', map_of req ''email''),
                (''registeredAt'', Some (js_or (map_of req ''registeredAt'') (JStr now1))),
                (''version'', Some (js_or (map_of req ''version'') (JStr ''1.0.0''))),
                (''lastActive'', Some (JStr now2))]"

definition api_register ::
  "string \<Rightarrow> string \<Rightarrow> (string \<times> json) list \<Rightarrow> storage \<Rightarrow> reply \<times> storage" where
  "api_register now1 now2 req s =
     (let id' = map_of req ''id'';
          username = map_of req ''username'';
          email = map_of req ''email''
      in if \<not> truthy id' \<or> \<not> truthy username \<or> \<not> truthy email
         then (Reply 400 missing_required_fields, s)
         else
           (case as_array (readUsers s) of
              Inl e \<Rightarrow> (registration_failed, s)
            | Inr users \<Rightarrow>
                (case js_find (same_user id' email) users of
                   Inl e \<Rightarrow> (registration_failed, s)
                 | Inr existingUser \<Rightarrow>
                     if truthy existingUser then (already_registered existingUser, s)
                     else
                       (let newUser = new_user now1 now2 req
                        in case writeUsers (JArr (users @ [newUser])) s of
                             Inl e \<Rightarrow> (registration_failed, s)
                           | Inr s' \<Rightarrow>
                               (Reply 200 (js_object [(''success'', Some (JBool True)),
                                                      (''user'', Some newUser)]), s')))))"

subsection \<open>POST /api/activity\<close>

text \<open>The callback \<^verbatim>\<open>u => u.id === userId\<close>.\<close>

definition has_id :: "jsval \<Rightarrow> json \<Rightarrow> error + bool" where
  "has_id userId u =
     (case get_prop u ''id'' of Inl e \<Rightarrow> Inl e | Inr uid \<Rightarrow> Inr (strict_eq uid userId))"

definition activity_failed :: reply where
  "activity_failed = Reply 500 (js_object [(''error'', Some (JStr ''Failed to log activity''))])"

text \<open>
  Lines 123 to 128: the user's \<open>lastActive\<close> is set and the users are written when
  \<^verbatim>\<open>findIndex\<close> finds the user, and only then.
\<close>

definition touch_user :: "string \<Rightarrow> (string \<times> json) list \<Rightarrow> storage \<Rightarrow> error + storage" where
  "touch_user now1 req s =
     (let userId = map_of req ''userId''; timestamp = map_of req ''timestamp''
      in case as_array (readUsers s) of
           Inl e \<Rightarrow> Inl e
         | Inr users \<Rightarrow>
             (case js_findIndex (has_id userId) users of
                Inl e \<Rightarrow> Inl e
              | Inr None \<Rightarrow> Inr s
              | Inr (Some userIndex) \<Rightarrow>
                  (case set_prop (users ! userIndex) ''lastActive'' (js_or timestamp (JStr now1)) of
                     Inl e \<Rightarrow> Inl e
                   | Inr u \<Rightarrow> writeUsers (JArr (users[userIndex := u])) s)))"

text \<open>The event that line 132 pushes.\<close>

definition new_event :: "string \<Rightarrow> (string \<times> json) list \<Rightarrow> json" where
  "new_event now2 req =
     js_object [(''userId'', map_of req ''userId''),
                (''action'', map_of req ''action''),
                (''messagesSent'', Some (js_or (map_of req ''messagesSent'') (JNum 0))),
                (''timestamp'', Some (js_or (map_of req ''timestamp'') (JStr now2)))]"

text \<open>Lines 139 to 142: \<^verbatim>\<open>activity.splice(0, activity.length - 1000)\<close>.\<close>

definition keep_last_1000 :: "json list \<Rightarrow> json list" where
  "keep_last_1000 activity =
     (if length activity > 1000 then drop (length activity - 1000) activity else activity)"

text \<open>Lines 130 to 146.\<close>

definition log_activity :: "string \<Rightarrow> (string \<times> json) list \<Rightarrow> storage \<Rightarrow> reply \<times> storage" where
  "log_activity now2 req s =
     (case as_array (readActivity s) of
        Inl e \<Rightarrow> (activity_failed, s)
      | Inr activity \<Rightarrow>
          (case writeActivity (JArr (keep_last_1000 (activity @ [new_event now2 req]))) s of
             Inl e \<Rightarrow> (activity_failed, s)
           | Inr s' \<Rightarrow> (Reply 200 (js_object [(''success'', Some (JBool True))]), s')))"

definition api_activity ::
  "string \<Rightarrow> string \<Rightarrow> (string \<times> json) list \<Rightarrow> storage \<Rightarrow> reply \<times> storage" where
  "api_activity now1 now2 req s =
     (if \<not> truthy (map_of req ''userId'') \<or> \<not> truthy (map_of req ''action'')
      then (Reply 400 missing_required_fields, s)
      else (case touch_user now1 req s of
              Inl e \<Rightarrow> (activity_failed, s)
            | Inr s1 \<Rightarrow> log_activity now2 req s1))"

subsection \<open>GET /api/stats\<close>

text \<open>\<^verbatim>\<open>t.split('T')[0]\<close>: the text before the first \<open>T\<close>, all of \<open>t\<close> when it has none.\<close>

definition date_part :: "string \<Rightarrow> string" where
  "date_part t = takeWhile (\<lambda>c. c \<noteq> CHR ''T'') t"

text \<open>
  The callback of \<^verbatim>\<open>users.filter\<close>, lines 184 to 187. A truthy \<open>lastActive\<close> that is
  not a string has no callable \<open>split\<close>.
\<close>

definition active_on :: "string \<Rightarrow> json \<Rightarrow> error + bool" where
  "active_on today u =
     (case get_prop u ''lastActive'' of
        Inl e \<Rightarrow> Inl e
      | Inr la \<Rightarrow>
          if truthy la
          then (case la of
                  Some (JStr t) \<Rightarrow> Inr (strict_eq (Some (JStr (date_part t))) (Some (JStr today)))
                | _ \<Rightarrow> Inl TypeError)
          else Inr (strict_eq (Some JNull) (Some (JStr today))))"

text \<open>The callback \<^verbatim>\<open>a => a.action === 'stop'\<close>.\<close>

definition is_stop :: "json \<Rightarrow> error + bool" where
  "is_stop a =
     (case get_prop a ''action'' of
        Inl e \<Rightarrow> Inl e
      | Inr action \<Rightarrow> Inr (strict_eq action (Some (JStr ''stop''))))"

text \<open>The callback \<^verbatim>\<open>(sum, a) => sum + (a.messagesSent || 0)\<close>.\<close>

definition add_sent :: "summed \<Rightarrow> json \<Rightarrow> error + summed" where
  "add_sent acc a =
     (case get_prop a ''messagesSent'' of
        Inl e \<Rightarrow> Inl e
      | Inr messagesSent \<Rightarrow> js_add acc (js_or messagesSent (JNum 0)))"

definition stats_failed :: reply where
  "stats_failed = Reply 500 (js_object [(''error'', Some (JStr ''Failed to fetch stats''))])"

definition api_stats :: "string \<Rightarrow> storage \<Rightarrow> reply \<times> storage" where
  "api_stats now s =
     (let users = readUsers s;
          activity = readActivity s;
          today = date_part now
      in case as_array users of
           Inl e \<Rightarrow> (stats_failed, s)
         | Inr us \<Rightarrow>
             (case js_filter (active_on today) us of
                Inl e \<Rightarrow> (stats_failed, s)
              | Inr active \<Rightarrow>
                  (case as_array activity of
                     Inl e \<Rightarrow> (stats_failed, s)
                   | Inr evs \<Rightarrow>
                       (case js_filter is_stop evs of
                          Inl e \<Rightarrow> (stats_failed, s)
                        | Inr stops \<Rightarrow>
                            (case js_reduce add_sent stops (Number (Finite 0)) of
                               Inl e \<Rightarrow> (stats_failed, s)
                             | Inr totalMessages \<Rightarrow>
                                 (Reply 200 (js_object
                                    [(''totalUsers'', Some (JNum (int (length us)))),
                                     (''activeToday'', Some (JNum (int (length active)))),
                                     (''totalMessages'', Some (written totalMessages))]), s))))))"

section \<open>Notions used to state the properties\<close>

text \<open>What a file holds, when it exists.\<close>

definition stored :: "storage \<Rightarrow> path \<Rightarrow> content option" where
  "stored s p = (case file_at s p of Absent \<Rightarrow> None | Present r w c \<Rightarrow> Some c)"

text \<open>The storage location exists.\<close>

definition dir_exists :: "storage \<Rightarrow> bool" where
  "dir_exists s = (case s of NoDir c \<Rightarrow> False | Dir c u a \<Rightarrow> True)"

text \<open>A file from which nothing can be loaded: absent, unreadable, or not JSON.\<close>

definition unusable :: "datafile \<Rightarrow> bool" where
  "unusable f = (case f of Absent \<Rightarrow> True | Present r w c \<Rightarrow> (if r then c = Malformed else True))"

text \<open>
  What the statistics are about. A stored user can be dated when it is not \<open>null\<close> and
  its \<open>lastActive\<close> is a string, or absent or falsy; its day is then the date part of a
  non-empty \<open>lastActive\<close>. An event is a stop event when its \<open>action\<close> is the string
  \<open>stop\<close>; its count is its \<open>messagesSent\<close> when that is a number and 0 otherwise, and
  the count can be summed when \<open>messagesSent\<close> is a number, or absent or falsy.
\<close>

definition datable :: "json \<Rightarrow> bool" where
  "datable u =
     (u \<noteq> JNull \<and> (case field u ''lastActive'' of Some (JStr t) \<Rightarrow> True | v \<Rightarrow> \<not> truthy v))"

definition last_active_day :: "json \<Rightarrow> string option" where
  "last_active_day u =
     (case field u ''lastActive'' of
        Some (JStr t) \<Rightarrow> (if t = [] then None else Some (date_part t))
      | _ \<Rightarrow> None)"

definition stop_event :: "json \<Rightarrow> bool" where
  "stop_event a = (field a ''action'' = Some (JStr ''stop''))"

definition messages_sent :: "json \<Rightarrow> int" where
  "messages_sent a = (case field a ''messagesSent'' of Some (JNum n) \<Rightarrow> n | _ \<Rightarrow> 0)"

definition countable_event :: "json \<Rightarrow> bool" where
  "countable_event a =
     (case field a ''messagesSent'' of Some (JNum n) \<Rightarrow> True | v \<Rightarrow> \<not> truthy v)"

text \<open>A write to the file succeeds.\<close>

definition writable_at :: "storage \<Rightarrow> path \<Rightarrow> bool" where
  "writable_at s p =
     (case s of
        NoDir c \<Rightarrow> False
      | Dir c u a \<Rightarrow> (case file_at s p of Absent \<Rightarrow> c | Present r w d \<Rightarrow> w))"

text \<open>The last \<open>k\<close> entries of a sequence, all of it when it has fewer.\<close>

definition last_entries :: "nat \<Rightarrow> 'a list \<Rightarrow> 'a list" where
  "last_entries k xs = drop (length xs - k) xs"

text \<open>
  A sequence of activity requests, each with the two clock readings of its handling,
  served one after the other.
\<close>

fun serve_activity ::
  "(string \<times> string \<times> (string \<times> json) list) list \<Rightarrow> storage \<Rightarrow> storage" where
  "serve_activity [] s = s"
| "serve_activity ((now1, now2, req) # calls) s =
     serve_activity calls (snd (api_activity now1 now2 req s))"

definition event_of :: "string \<times> string \<times> (string \<times> json) list \<Rightarrow> json" where
  "event_of call = (case call of (now1, now2, req) \<Rightarrow> new_event now2 req)"

definition valid_activity :: "string \<times> string \<times> (string \<times> json) list \<Rightarrow> bool" where
  "valid_activity call =
     (case call of (now1, now2, req) \<Rightarrow>
        truthy (map_of req ''userId'') \<and> truthy (map_of req ''action''))"

text \<open>
  A stored user matches a register request when its \<open>id\<close> is the request's \<open>id\<close> or
  its \<open>email\<close> the request's \<open>email\<close>, as \<^verbatim>\<open>===\<close> compares them.
\<close>

definition matches_request :: "(string \<times> json) list \<Rightarrow> json \<Rightarrow> bool" where
  "matches_request req u =
     (strict_eq (field u ''id'') (map_of req ''id'')
      \<or> strict_eq (field u ''email'') (map_of req ''email''))"

definition valid_register :: "(string \<times> json) list \<Rightarrow> bool" where
  "valid_register req =
     (truthy (map_of req ''id'') \<and> truthy (map_of req ''username'')
      \<and> truthy (map_of req ''email''))"

text \<open>What is written to the file can be read back: it is not an unreadable file.\<close>

definition reads_back :: "datafile \<Rightarrow> bool" where
  "reads_back f = (case f of Absent \<Rightarrow> True | Present r w c \<Rightarrow> r)"

section \<open>Validation of the required fields\<close>

lemma missing_required_fields_eq:
  "missing_required_fields = JObj [(''error'', JStr ''Missing required fields'')]"
  by (simp add: missing_required_fields_def js_object_def)

lemma register_rejects:
  "\<not> truthy (map_of req ''id'') \<or> \<not> truthy (map_of req ''username'')
     \<or> \<not> truthy (map_of req ''email'')
   \<Longrightarrow> api_register now1 now2 req s = (Reply 400 missing_required_fields, s)"
  by (auto simp: api_register_def)

lemma activity_rejects:
  "\<not> truthy (map_of req ''userId'') \<or> \<not> truthy (map_of req ''action'')
   \<Longrightarrow> api_activity now1 now2 req s = (Reply 400 missing_required_fields, s)"
  by (auto simp: api_activity_def)

text \<open>
  Claim C3. A register request without \<open>id\<close>, \<open>username\<close> or \<open>email\<close>, and an activity
  request without \<open>userId\<close> or \<open>action\<close>, is answered with status 400 and the error
  \<open>Missing required fields\<close>, and the storage (both files) is left exactly as it was.
\<close>

theorem missing_fields_rejected:
  "(map_of req ''id'' = None \<or> map_of req ''username'' = None \<or> map_of req ''email'' = None \<longrightarrow>
      api_register now1 now2 req s
        = (Reply 400 (JObj [(''error'', JStr ''Missing required fields'')]), s))
   \<and> (map_of req' ''userId'' = None \<or> map_of req' ''action'' = None \<longrightarrow>
      api_activity now1 now2 req' s
        = (Reply 400 (JObj [(''error'', JStr ''Missing required fields'')]), s))"
  by (auto simp: register_rejects activity_rejects missing_required_fields_eq)

theorem missing_fields_rejected_witness:
  "map_of [(''id'', JStr ''u1''), (''email'', JStr ''a@x.com'')] ''username'' = None
   \<and> api_register ''t1'' ''t2'' [(''id'', JStr ''u1''), (''email'', JStr ''a@x.com'')]
         (Dir True (Present True True (Doc (JArr []))) Absent)
       = (Reply 400 (JObj [(''error'', JStr ''Missing required fields'')]),
          Dir True (Present True True (Doc (JArr []))) Absent)
   \<and> map_of [(''userId'', JStr ''u1'')] ''action'' = None
   \<and> api_activity ''t1'' ''t2'' [(''userId'', JStr ''u1'')]
         (Dir True (Present True True (Doc (JArr []))) Absent)
       = (Reply 400 (JObj [(''error'', JStr ''Missing required fields'')]),
          Dir True (Present True True (Doc (JArr []))) Absent)"
  using missing_fields_rejected
    [of "[(''id'', JStr ''u1''), (''email'', JStr ''a@x.com'')]" "''t1''" "''t2''"
        "Dir True (Present True True (Doc (JArr []))) Absent" "[(''userId'', JStr ''u1'')]"]
  by simp

text \<open>
  Claim C9. The check is \<^verbatim>\<open>!field\<close>, so a required field that is the empty string, or
  any other falsy value, is rejected as an absent one is: status 400, the same error, the
  storage untouched, which is also the handler's answer to the request with that field
  deleted.
\<close>

theorem falsy_fields_rejected:
  "(k \<in> {''id'', ''username'', ''email''}
      \<and> (map_of req k = Some (JStr '''') \<or> \<not> truthy (map_of req k)) \<longrightarrow>
      api_register now1 now2 req s
        = (Reply 400 (JObj [(''error'', JStr ''Missing required fields'')]), s)
      \<and> api_register now1 now2 req s = api_register now1 now2 (AList.delete k req) s)
   \<and> (k' \<in> {''userId'', ''action''}
      \<and> (map_of req' k' = Some (JStr '''') \<or> \<not> truthy (map_of req' k')) \<longrightarrow>
      api_activity now1 now2 req' s
        = (Reply 400 (JObj [(''error'', JStr ''Missing required fields'')]), s)
      \<and> api_activity now1 now2 req' s = api_activity now1 now2 (AList.delete k' req') s)"
proof -
  have del: "\<not> truthy (map_of (AList.delete x r) x)" for x and r :: "(string \<times> json) list"
    by (simp add: delete_conv')
  have reg: "api_register now1 now2 req s = (Reply 400 missing_required_fields, s)
      \<and> api_register now1 now2 (AList.delete k req) s = (Reply 400 missing_required_fields, s)"
    if "k \<in> {''id'', ''username'', ''email''}" "\<not> truthy (map_of req k)"
    using that del [of k req] by (auto intro!: register_rejects)
  have act: "api_activity now1 now2 req' s = (Reply 400 missing_required_fields, s)
      \<and> api_activity now1 now2 (AList.delete k' req') s = (Reply 400 missing_required_fields, s)"
    if "k' \<in> {''userId'', ''action''}" "\<not> truthy (map_of req' k')"
    using that del [of k' req'] by (auto intro!: activity_rejects)
  have empty: "v = Some (JStr '''') \<Longrightarrow> \<not> truthy v" for v by simp
  show ?thesis
    using reg act empty [of "map_of req k"] empty [of "map_of req' k'"]
    unfolding missing_required_fields_eq by metis
qed

theorem falsy_fields_rejected_witness:
  "''email'' \<in> {''id'', ''username'', ''email''}
   \<and> map_of [(''id'', JStr ''u1''), (''username'', JStr ''a''), (''email'', JStr '''')] ''email''
       = Some (JStr '''')
   \<and> api_register ''t1'' ''t2''
         [(''id'', JStr ''u1''), (''username'', JStr ''a''), (''email'', JStr '''')]
         (Dir True Absent Absent)
       = (Reply 400 (JObj [(''error'', JStr ''Missing required fields'')]), Dir True Absent Absent)
   \<and> ''action'' \<in> {''userId'', ''action''}
   \<and> map_of [(''userId'', JStr ''u1''), (''action'', JStr '''')] ''action'' = Some (JStr '''')
   \<and> api_activity ''t1'' ''t2'' [(''userId'', JStr ''u1''), (''action'', JStr '''')]
         (Dir True Absent Absent)
       = (Reply 400 (JObj [(''error'', JStr ''Missing required fields'')]), Dir True Absent Absent)"
  using falsy_fields_rejected
    [of "''email''" "[(''id'', JStr ''u1''), (''username'', JStr ''a''), (''email'', JStr '''')]"
        "''t1''" "''t2''" "Dir True Absent Absent"
        "''action''" "[(''userId'', JStr ''u1''), (''action'', JStr '''')]"]
  by simp

section \<open>Loading and initialization\<close>

lemma read_json_cases:
  "read_json s p =
     (case file_at s p of
        Absent \<Rightarrow> JArr []
      | Present r w c \<Rightarrow> (if r then (case c of Malformed \<Rightarrow> JArr [] | Doc v \<Rightarrow> v) else JArr []))"
  by (simp add: read_json_def fs_readFile_def split: datafile.splits content.splits)

text \<open>
  Claim C5, as stated: the loaders return an empty sequence whenever the file is absent,
  unreadable, or not valid for the expected structure. A users file that holds the JSON
  object \<^verbatim>\<open>{}\<close> is not a sequence of users, and \<open>readUsers\<close> returns that object.
\<close>

theorem load_wrong_structure_counterexample:
  "readUsers (Dir True (Present True True (Doc (JObj []))) Absent) = JObj []
   \<and> JObj [] \<noteq> JArr []"
  by (simp add: readUsers_def read_json_cases)

text \<open>
  Claim C5, amended. \<open>readUsers\<close> and \<open>readActivity\<close> never raise (they are total
  functions into JSON values); they return the empty array when the file is absent,
  unreadable or not parseable as JSON; a readable file that parses is returned as parsed,
  whatever its structure.
\<close>

theorem load_fails_open:
  "(unusable (file_at s USERS_FILE) \<longrightarrow> readUsers s = JArr [])
   \<and> (unusable (file_at s ACTIVITY_FILE) \<longrightarrow> readActivity s = JArr [])
   \<and> (file_at s' USERS_FILE = Present True w (Doc v) \<longrightarrow> readUsers s' = v)
   \<and> (file_at s' ACTIVITY_FILE = Present True w' (Doc v') \<longrightarrow> readActivity s' = v')"
  by (auto simp: readUsers_def readActivity_def read_json_cases unusable_def
           split: datafile.splits if_splits)

theorem load_fails_open_witness:
  "unusable (file_at (Dir True Absent (Present True True Malformed)) USERS_FILE)
   \<and> readUsers (Dir True Absent (Present True True Malformed)) = JArr []
   \<and> unusable (file_at (Dir True Absent (Present True True Malformed)) ACTIVITY_FILE)
   \<and> readActivity (Dir True Absent (Present True True Malformed)) = JArr []
   \<and> readUsers (Dir True (Present True True (Doc (JObj []))) (Present True False (Doc (JArr [JNum 1]))))
       = JObj []
   \<and> readActivity (Dir True (Present True True (Doc (JObj []))) (Present True False (Doc (JArr [JNum 1]))))
       = JArr [JNum 1]"
  using load_fails_open
    [of "Dir True Absent (Present True True Malformed)"
        "Dir True (Present True True (Doc (JObj []))) (Present True False (Doc (JArr [JNum 1])))"
        True "JObj []" False "JArr [JNum 1]"]
  by (simp add: unusable_def)

text \<open>
  Claim C8, as stated: for every state of the storage location, initialization ensures
  that the location exists. When the directory is missing and cannot be created,
  \<^verbatim>\<open>mkdir\<close> throws, the outer \<^verbatim>\<open>catch\<close> logs the error, and nothing exists afterwards.
\<close>

theorem initialize_blocked_counterexample:
  "\<not> dir_exists (initializeStorage (NoDir False))"
  by (simp add: initializeStorage_def dir_exists_def)

text \<open>
  Claim C8, amended. Initialization never changes a backing file that exists; a file it
  changes was missing and now holds the empty array; an existing location stays. When the
  process may create the location and its files, afterwards the location exists and
  neither file is missing; when it may not, initialization changes nothing.
\<close>

theorem initialize_keeps_existing:
  "(file_at s p \<noteq> Absent \<longrightarrow> file_at (initializeStorage s) p = file_at s p)
   \<and> (file_at (initializeStorage s) p' \<noteq> file_at s p' \<longrightarrow>
        file_at s p' = Absent
        \<and> file_at (initializeStorage s) p' = Present True True (Doc (JArr [])))
   \<and> (dir_exists s \<longrightarrow> dir_exists (initializeStorage s))
   \<and> (creatable s \<longrightarrow>
        dir_exists (initializeStorage s) \<and> file_at (initializeStorage s) p' \<noteq> Absent)
   \<and> (\<not> creatable s' \<longrightarrow> initializeStorage s' = s')"
  by (cases s; cases s'; cases p; cases p')
     (auto simp: initializeStorage_def init_file_def fs_access_def dir_exists_def
                 JSON_stringify_def
           split: datafile.splits)

theorem initialize_keeps_existing_witness:
  "file_at (Dir True (Present False False Malformed) Absent) USERS_FILE \<noteq> Absent
   \<and> file_at (initializeStorage (Dir True (Present False False Malformed) Absent)) USERS_FILE
       = Present False False Malformed
   \<and> file_at (initializeStorage (Dir True (Present False False Malformed) Absent)) ACTIVITY_FILE
       \<noteq> file_at (Dir True (Present False False Malformed) Absent) ACTIVITY_FILE
   \<and> file_at (initializeStorage (Dir True (Present False False Malformed) Absent)) ACTIVITY_FILE
       = Present True True (Doc (JArr []))
   \<and> dir_exists (Dir True (Present False False Malformed) Absent)
   \<and> creatable (Dir True (Present False False Malformed) Absent)
   \<and> dir_exists (initializeStorage (Dir True (Present False False Malformed) Absent))
   \<and> \<not> creatable (Dir False Absent Absent)
   \<and> initializeStorage (Dir False Absent Absent) = Dir False Absent Absent"
  using initialize_keeps_existing
    [of "Dir True (Present False False Malformed) Absent" USERS_FILE ACTIVITY_FILE
        "Dir False Absent Absent"]
  by (simp add: dir_exists_def)

section \<open>The statistics\<close>

lemma js_filter_total:
  "(\<And>x. x \<in> set xs \<Longrightarrow> p x = Inr (q x)) \<Longrightarrow> js_filter p xs = Inr (filter q xs)"
  by (induction xs) auto

lemma active_on_datable:
  "datable u \<Longrightarrow> active_on today u = Inr (last_active_day u = Some today)"
  by (auto simp: datable_def active_on_def get_prop_def last_active_day_def strict_eq_def
           split: option.splits json.splits)

lemma is_stop_total: "a \<noteq> JNull \<Longrightarrow> is_stop a = Inr (stop_event a)"
  by (auto simp: is_stop_def get_prop_def stop_event_def strict_eq_def)

lemma add_sent_number:
  "a \<noteq> JNull \<Longrightarrow> countable_event a \<Longrightarrow>
     add_sent (Number x) a = Inr (Number (add_double x (messages_sent a)))"
  by (auto simp: add_sent_def get_prop_def countable_event_def messages_sent_def js_or_def
                 js_add_def
           split: option.splits json.splits)

lemma js_reduce_add_sent:
  "(\<And>a. a \<in> set xs \<Longrightarrow> a \<noteq> JNull \<and> countable_event a)
   \<Longrightarrow> js_reduce add_sent xs (Number x)
         = Inr (Number (foldl add_double x (map messages_sent xs)))"
  by (induction xs arbitrary: x) (auto simp: add_sent_number)

lemma round_double_exact: "\<bar>x\<bar> \<le> 2 ^ 53 \<Longrightarrow> round_double x = Finite x"
  by (simp add: round_double_def)

lemma foldl_add_double_exact:
  "\<bar>n\<bar> + sum_list (map abs ms) \<le> 2 ^ 53
   \<Longrightarrow> foldl add_double (Finite n) ms = Finite (n + sum_list ms)"
proof (induction ms arbitrary: n)
  case Nil
  then show ?case by simp
next
  case (Cons m ms)
  have "\<bar>n + m\<bar> \<le> \<bar>n\<bar> + \<bar>m\<bar>" by simp
  moreover have "0 \<le> sum_list (map abs ms)" by (induction ms) auto
  ultimately have small: "\<bar>n + m\<bar> \<le> 2 ^ 53" and rest: "\<bar>n + m\<bar> + sum_list (map abs ms) \<le> 2 ^ 53"
    using Cons.prems by auto
  have "foldl add_double (Finite (n + m)) ms = Finite (n + m + sum_list ms)"
    using rest by (rule Cons.IH)
  then show ?case
    by (simp add: round_double_exact [OF small] add.assoc)
qed

lemma api_stats_reply:
  assumes "readUsers s = JArr users" and "\<And>u. u \<in> set users \<Longrightarrow> datable u"
    and "readActivity s = JArr evs"
    and "\<And>a. a \<in> set evs \<Longrightarrow> a \<noteq> JNull \<and> (stop_event a \<longrightarrow> countable_event a)"
  shows "api_stats now s =
           (Reply 200 (JObj
              [(''totalUsers'', JNum (int (length users))),
               (''activeToday'',
                  JNum (int (length (filter (\<lambda>u. last_active_day u = Some (date_part now)) users)))),
               (''totalMessages'',
                  written (Number (foldl add_double (Finite 0)
                    (map messages_sent (filter stop_event evs)))))]), s)"
proof -
  have f1: "js_filter (active_on (date_part now)) users
              = Inr (filter (\<lambda>u. last_active_day u = Some (date_part now)) users)"
    using assms(2) by (intro js_filter_total) (simp add: active_on_datable)
  have f2: "js_filter is_stop evs = Inr (filter stop_event evs)"
    using assms(4) by (intro js_filter_total) (simp add: is_stop_total)
  have f3: "js_reduce add_sent (filter stop_event evs) (Number (Finite 0))
              = Inr (Number (foldl add_double (Finite 0)
                  (map messages_sent (filter stop_event evs))))"
    using assms(4) by (intro js_reduce_add_sent) auto
  show ?thesis
    by (simp add: api_stats_def assms(1,3) f1 f2 f3 js_object_def)
qed

text \<open>
  Claim C4, as stated: for every collection of events \<open>totalMessages\<close> is the sum of
  \<open>messagesSent\<close> over the stop events. The handler adds doubles: for the two stop events
  with counts 9007199254740992 and 1 it answers 9007199254740992, and the sum is
  9007199254740993.
\<close>

theorem total_messages_rounded_counterexample:
  "field (body (fst (api_stats ''2024-01-02T10:00:00.000Z''
       (Dir True (Present True True (Doc (JArr [])))
          (Present True True (Doc (JArr
             [JObj [(''action'', JStr ''stop''), (''messagesSent'', JNum 9007199254740992)],
              JObj [(''action'', JStr ''stop''), (''messagesSent'', JNum 1)]]))))))) ''totalMessages''
     = Some (JNum 9007199254740992)
   \<and> sum_list (map messages_sent (filter stop_event
         [JObj [(''action'', JStr ''stop''), (''messagesSent'', JNum 9007199254740992)],
          JObj [(''action'', JStr ''stop''), (''messagesSent'', JNum 1)]]))
     = 9007199254740993"
proof -
  let ?evs = "[JObj [(''action'', JStr ''stop''), (''messagesSent'', JNum 9007199254740992)],
               JObj [(''action'', JStr ''stop''), (''messagesSent'', JNum 1)]]"
  let ?s = "Dir True (Present True True (Doc (JArr []))) (Present True True (Doc (JArr ?evs)))"
  have len: "bit_length (nat \<bar>9007199254740993\<bar>) - 53 = 1" by simp
  have mag: "nat \<bar>9007199254740993::int\<bar> = 9007199254740993" by simp
  have up: "round_double 9007199254740993 = Finite 9007199254740992"
    unfolding round_double_def Let_def len mag by simp
  have exact: "round_double 9007199254740992 = Finite 9007199254740992"
    by (simp add: round_double_def)
  have counts: "map messages_sent (filter stop_event ?evs) = [9007199254740992, 1]"
    by (simp add: stop_event_def messages_sent_def)
  have "api_stats ''2024-01-02T10:00:00.000Z'' ?s =
      (Reply 200 (JObj
         [(''totalUsers'', JNum (int (length ([] :: json list)))),
          (''activeToday'',
             JNum (int (length (filter
               (\<lambda>u. last_active_day u = Some (date_part ''2024-01-02T10:00:00.000Z'')) [])))),
          (''totalMessages'',
             written (Number (foldl add_double (Finite 0)
               (map messages_sent (filter stop_event ?evs)))))]), ?s)"
    by (rule api_stats_reply)
       (auto simp: readUsers_def readActivity_def read_json_cases stop_event_def
                   countable_event_def)
  then have "field (body (fst (api_stats ''2024-01-02T10:00:00.000Z'' ?s))) ''totalMessages''
      = Some (JNum 9007199254740992)"
    unfolding counts by (simp add: up exact)
  moreover have "sum_list (map messages_sent (filter stop_event ?evs)) = 9007199254740993"
    unfolding counts by simp
  ultimately show ?thesis by blast
qed

text \<open>
  Claim C4, amended. For stored users that can be dated and stored events of which the
  stop events can be summed, the statistics are answered with status 200 and change
  nothing, and, when the magnitudes of the stop events' counts add up to at most
  \<open>2^53\<close>, \<open>totalMessages\<close> is the sum of \<open>messagesSent\<close> over exactly the events whose
  \<open>action\<close> is \<open>stop\<close>. Nothing is asked of the \<open>messagesSent\<close> of the other events:
  whatever they carry, they add nothing.
\<close>

theorem total_messages_sums_stop_events:
  assumes "readUsers s = JArr users" and "\<forall>u\<in>set users. datable u"
    and "readActivity s = JArr evs"
    and "\<forall>a\<in>set evs. a \<noteq> JNull \<and> (stop_event a \<longrightarrow> countable_event a)"
    and "sum_list (map (\<lambda>a. \<bar>messages_sent a\<bar>) (filter stop_event evs)) \<le> 2 ^ 53"
  shows "status (fst (api_stats now s)) = 200
         \<and> snd (api_stats now s) = s
         \<and> field (body (fst (api_stats now s))) ''totalMessages''
             = Some (JNum (sum_list (map messages_sent (filter stop_event evs))))"
proof -
  have "\<bar>0\<bar> + sum_list (map abs (map messages_sent (filter stop_event evs))) \<le> (2 ^ 53 :: int)"
    using assms(5) by (simp add: comp_def)
  then have "foldl add_double (Finite 0) (map messages_sent (filter stop_event evs))
      = Finite (0 + sum_list (map messages_sent (filter stop_event evs)))"
    by (rule foldl_add_double_exact)
  then show ?thesis
    using api_stats_reply [of s users evs now] assms(1-4) by simp
qed

theorem total_messages_sums_stop_events_witness:
  "readUsers (Dir True
       (Present True True (Doc (JArr [JObj [(''lastActive'', JStr ''2024-01-02T08:30:00.000Z'')]])))
       (Present True True (Doc (JArr
          [JObj [(''action'', JStr ''stop''), (''messagesSent'', JNum 5)],
           JObj [(''action'', JStr ''start''), (''messagesSent'', JNum 99)]]))))
     = JArr [JObj [(''lastActive'', JStr ''2024-01-02T08:30:00.000Z'')]]
   \<and> datable (JObj [(''lastActive'', JStr ''2024-01-02T08:30:00.000Z'')])
   \<and> readActivity (Dir True
       (Present True True (Doc (JArr [JObj [(''lastActive'', JStr ''2024-01-02T08:30:00.000Z'')]])))
       (Present True True (Doc (JArr
          [JObj [(''action'', JStr ''stop''), (''messagesSent'', JNum 5)],
           JObj [(''action'', JStr ''start''), (''messagesSent'', JNum 99)]]))))
     = JArr [JObj [(''action'', JStr ''stop''), (''messagesSent'', JNum 5)],
             JObj [(''action'', JStr ''start''), (''messagesSent'', JNum 99)]]
   \<and> stop_event (JObj [(''action'', JStr ''stop''), (''messagesSent'', JNum 5)])
   \<and> countable_event (JObj [(''action'', JStr ''stop''), (''messagesSent'', JNum 5)])
   \<and> \<not> stop_event (JObj [(''action'', JStr ''start''), (''messagesSent'', JNum 99)])
   \<and> sum_list (map (\<lambda>a. \<bar>messages_sent a\<bar>) (filter stop_event
         [JObj [(''action'', JStr ''stop''), (''messagesSent'', JNum 5)],
          JObj [(''action'', JStr ''start''), (''messagesSent'', JNum 99)]])) \<le> 2 ^ 53
   \<and> status (fst (api_stats ''2024-01-02T10:00:00.000Z'' (Dir True
       (Present True True (Doc (JArr [JObj [(''lastActive'', JStr ''2024-01-02T08:30:00.000Z'')]])))
       (Present True True (Doc (JArr
          [JObj [(''action'', JStr ''stop''), (''messagesSent'', JNum 5)],
           JObj [(''action'', JStr ''start''), (''messagesSent'', JNum 99)]])))))) = 200
   \<and> field (body (fst (api_stats ''2024-01-02T10:00:00.000Z'' (Dir True
       (Present True True (Doc (JArr [JObj [(''lastActive'', JStr ''2024-01-02T08:30:00.000Z'')]])))
       (Present True True (Doc (JArr
          [JObj [(''action'', JStr ''stop''), (''messagesSent'', JNum 5)],
           JObj [(''action'', JStr ''start''), (''messagesSent'', JNum 99)]]))))))) ''totalMessages''
       = Some (JNum 5)"
  using total_messages_sums_stop_events
    [of "Dir True
           (Present True True (Doc (JArr [JObj [(''lastActive'', JStr ''2024-01-02T08:30:00.000Z'')]])))
           (Present True True (Doc (JArr
              [JObj [(''action'', JStr ''stop''), (''messagesSent'', JNum 5)],
               JObj [(''action'', JStr ''start''), (''messagesSent'', JNum 99)]])))"
        "[JObj [(''lastActive'', JStr ''2024-01-02T08:30:00.000Z'')]]"
        "[JObj [(''action'', JStr ''stop''), (''messagesSent'', JNum 5)],
          JObj [(''action'', JStr ''start''), (''messagesSent'', JNum 99)]]"
        "''2024-01-02T10:00:00.000Z''"]
  by (simp add: readUsers_def readActivity_def read_json_cases stop_event_def
                countable_event_def messages_sent_def datable_def)



section \<open>Recording activity\<close>

lemma fs_writeFile_Inr:
  "fs_writeFile s p d = Inr s' \<Longrightarrow>
     file_at s' q =
       (if q = p
        then (case file_at s p of Absent \<Rightarrow> Present True True d
              | Present r w c \<Rightarrow> Present r w d)
        else file_at s q)"
  by (cases s; cases p; cases q) (auto split: datafile.splits if_splits)

lemma fs_writeFile_writable: "writable_at s p \<Longrightarrow> \<exists>s'. fs_writeFile s p d = Inr s'"
  by (cases s; cases p) (auto simp: writable_at_def split: datafile.splits)

lemma fs_writeFile_Inr_stored:
  "fs_writeFile s p d = Inr s' \<Longrightarrow> stored s' p = Some d"
  using fs_writeFile_Inr [of s p d s' p] by (auto simp: stored_def split: datafile.splits)

lemma js_findIndex_none:
  "(\<And>x. x \<in> set xs \<Longrightarrow> p x = Inr False) \<Longrightarrow> js_findIndex p xs = Inr None"
  by (induction xs) auto

lemma js_findIndex_first:
  "i < length xs \<Longrightarrow> (\<And>j. j < i \<Longrightarrow> p (xs ! j) = Inr False) \<Longrightarrow> p (xs ! i) = Inr True
   \<Longrightarrow> js_findIndex p xs = Inr (Some i)"
proof (induction xs arbitrary: i)
  case Nil
  then show ?case by simp
next
  case (Cons x xs)
  show ?case
  proof (cases i)
    case 0
    with Cons.prems show ?thesis by simp
  next
    case (Suc k)
    have "p x = Inr False" using Cons.prems(2) [of 0] Suc by simp
    moreover have "js_findIndex p xs = Inr (Some k)"
    proof (rule Cons.IH)
      show "k < length xs" using Cons.prems(1) Suc by simp
      show "p (xs ! j) = Inr False" if "j < k" for j
        using Cons.prems(2) [of "Suc j"] that Suc by simp
      show "p (xs ! k) = Inr True" using Cons.prems(3) Suc by simp
    qed
    ultimately show ?thesis using Suc by simp
  qed
qed

lemma js_findIndex_Some:
  "js_findIndex p xs = Inr (Some i) \<Longrightarrow> i < length xs \<and> p (xs ! i) = Inr True"
proof (induction xs arbitrary: i)
  case Nil
  then show ?case by simp
next
  case (Cons x xs)
  then show ?case
    by (cases i) (auto split: sum.splits if_splits option.splits)
qed

lemma js_findIndex_never_throws:
  "(\<And>x. x \<in> set xs \<Longrightarrow> \<exists>b. p x = Inr b) \<Longrightarrow> \<exists>r. js_findIndex p xs = Inr r"
proof (induction xs)
  case Nil
  then show ?case by simp
next
  case (Cons x xs)
  obtain b where b: "p x = Inr b" using Cons.prems [of x] by auto
  obtain r where r: "js_findIndex p xs = Inr r" using Cons by auto
  show ?case using b r by (cases r) auto
qed

lemma has_id_total: "u \<noteq> JNull \<Longrightarrow> has_id userId u = Inr (strict_eq (field u ''id'') userId)"
  by (simp add: has_id_def get_prop_def)

lemma strict_eq_truthy_object:
  "strict_eq (field u k) v \<Longrightarrow> truthy v \<Longrightarrow> \<exists>kvs. u = JObj kvs"
  by (cases u) (auto simp: strict_eq_def)

lemma keep_last_1000_snoc: "keep_last_1000 (xs @ [e]) = drop (length xs - 999) xs @ [e]"
  by (auto simp: keep_last_1000_def)

lemma keep_last_1000_last_entries: "keep_last_1000 xs = last_entries 1000 xs"
  by (simp add: keep_last_1000_def last_entries_def)

lemma log_activity_users_file:
  "file_at (snd (log_activity now2 req s)) USERS_FILE = file_at s USERS_FILE"
  by (auto simp: log_activity_def writeActivity_def fs_writeFile_Inr split: sum.splits)

lemma status_activity_failed: "status activity_failed = 500"
  by (simp add: activity_failed_def)

lemma touch_user_activity_file:
  "touch_user now1 req s = Inr s1 \<Longrightarrow> file_at s1 ACTIVITY_FILE = file_at s ACTIVITY_FILE"
  by (auto simp: touch_user_def writeUsers_def Let_def fs_writeFile_Inr
           split: sum.splits option.splits)

lemma touch_user_unknown:
  assumes "readUsers s = JArr users"
    and "\<And>u. u \<in> set users \<Longrightarrow> u \<noteq> JNull \<and> \<not> strict_eq (field u ''id'') (map_of req ''userId'')"
  shows "touch_user now1 req s = Inr s"
proof -
  have "js_findIndex (has_id (map_of req ''userId'')) users = Inr None"
    using assms(2) by (intro js_findIndex_none) (simp add: has_id_total)
  then show ?thesis by (simp add: touch_user_def assms(1))
qed

lemma touch_user_known:
  assumes "truthy (map_of req ''userId'')"
    and "readUsers s = JArr users"
    and "i < length users"
    and "\<And>j. j < i \<Longrightarrow> users ! j \<noteq> JNull
           \<and> \<not> strict_eq (field (users ! j) ''id'') (map_of req ''userId'')"
    and "strict_eq (field (users ! i) ''id'') (map_of req ''userId'')"
  shows "\<exists>kvs. users ! i = JObj kvs
           \<and> touch_user now1 req s
               = fs_writeFile s USERS_FILE (Doc (JArr (users[i :=
                   JObj (AList.update ''lastActive'' (js_or (map_of req ''timestamp'') (JStr now1)) kvs)])))"
proof -
  obtain kvs where kvs: "users ! i = JObj kvs"
    using strict_eq_truthy_object [OF assms(5) assms(1)] by auto
  have "js_findIndex (has_id (map_of req ''userId'')) users = Inr (Some i)"
  proof (rule js_findIndex_first [OF assms(3)])
    show "has_id (map_of req ''userId'') (users ! j) = Inr False" if "j < i" for j
      using assms(4) [OF that] by (simp add: has_id_total)
    show "has_id (map_of req ''userId'') (users ! i) = Inr True"
      using assms(5) kvs by (simp add: has_id_total)
  qed
  then show ?thesis
    using kvs by (simp add: touch_user_def assms(2) writeUsers_def JSON_stringify_def)
qed

lemma last_entries_again:
  "last_entries 1000 (last_entries 1000 xs @ ys) = last_entries 1000 (xs @ ys)"
  by (cases "length xs \<le> 1000") (auto simp: last_entries_def add.commute)

lemma length_last_entries: "length (last_entries k xs) = min (length xs) k"
  by (auto simp: last_entries_def)

lemma set_prop_not_null: "set_prop u k v = Inr u' \<Longrightarrow> u' \<noteq> JNull"
  by (cases u) auto

lemma set_prop_total: "u \<noteq> JNull \<Longrightarrow> \<exists>u'. set_prop u k v = Inr u'"
  by (cases u) auto

lemma touch_user_serving:
  assumes "JNull \<notin> set us"
  shows "\<exists>us'. JNull \<notin> set us'
           \<and> touch_user now1 req (Dir c (Present True True (Doc (JArr us))) a)
               = Inr (Dir c (Present True True (Doc (JArr us'))) a)"
proof -
  let ?s = "Dir c (Present True True (Doc (JArr us))) a"
  have users: "readUsers ?s = JArr us"
    by (simp add: readUsers_def read_json_cases)
  have "\<exists>b. has_id (map_of req ''userId'') u = Inr b" if "u \<in> set us" for u
  proof -
    have "u \<noteq> JNull" using that assms by auto
    then show ?thesis by (simp add: has_id_total)
  qed
  then obtain r where r: "js_findIndex (has_id (map_of req ''userId'')) us = Inr r"
    using js_findIndex_never_throws [of us "has_id (map_of req ''userId'')"] by blast
  show ?thesis
  proof (cases r)
    case None
    then show ?thesis using r assms users by (auto simp: touch_user_def)
  next
    case (Some i)
    then have i: "i < length us" using js_findIndex_Some r by blast
    then have "us ! i \<noteq> JNull" using assms by (metis nth_mem)
    then obtain u' where u': "set_prop (us ! i) ''lastActive''
        (js_or (map_of req ''timestamp'') (JStr now1)) = Inr u'"
      using set_prop_total by blast
    have "JNull \<notin> set (us[i := u'])"
      using assms set_prop_not_null [OF u'] set_update_subset_insert [of us i u'] by auto
    moreover have "touch_user now1 req ?s = Inr (Dir c (Present True True (Doc (JArr (us[i := u'])))) a)"
      using r Some u' users by (simp add: touch_user_def writeUsers_def JSON_stringify_def)
    ultimately show ?thesis by blast
  qed
qed

lemma api_activity_serving:
  assumes "JNull \<notin> set us"
    and "truthy (map_of req ''userId'')" and "truthy (map_of req ''action'')"
  shows "\<exists>us'. JNull \<notin> set us'
           \<and> api_activity now1 now2 req
                (Dir c (Present True True (Doc (JArr us))) (Present True True (Doc (JArr evs))))
               = (Reply 200 (JObj [(''success'', JBool True)]),
                  Dir c (Present True True (Doc (JArr us')))
                    (Present True True (Doc (JArr (last_entries 1000 (evs @ [new_event now2 req]))))))"
proof -
  obtain us' where us': "JNull \<notin> set us'"
    and touch: "touch_user now1 req
        (Dir c (Present True True (Doc (JArr us))) (Present True True (Doc (JArr evs))))
      = Inr (Dir c (Present True True (Doc (JArr us'))) (Present True True (Doc (JArr evs))))"
    using touch_user_serving [OF assms(1)] by blast
  have "log_activity now2 req
          (Dir c (Present True True (Doc (JArr us'))) (Present True True (Doc (JArr evs))))
        = (Reply 200 (JObj [(''success'', JBool True)]),
           Dir c (Present True True (Doc (JArr us')))
             (Present True True (Doc (JArr (last_entries 1000 (evs @ [new_event now2 req]))))))"
    by (simp add: log_activity_def readActivity_def read_json_cases writeActivity_def
                  JSON_stringify_def js_object_def keep_last_1000_last_entries)
  then show ?thesis
    using us' touch assms(2,3) by (auto simp: api_activity_def)
qed

lemma event_of_call: "event_of (now1, now2, req) = new_event now2 req"
  by (simp add: event_of_def)

lemma serve_activity_stored:
  assumes "JNull \<notin> set us" and "\<forall>call\<in>set calls. valid_activity call"
    and "length evs \<le> 1000"
  shows "stored (serve_activity calls
           (Dir c (Present True True (Doc (JArr us))) (Present True True (Doc (JArr evs)))))
             ACTIVITY_FILE
         = Some (Doc (JArr (last_entries 1000 (evs @ map event_of calls))))"
  using assms
proof (induction calls arbitrary: us evs)
  case Nil
  then show ?case by (simp add: last_entries_def stored_def)
next
  case (Cons call calls)
  obtain now1 now2 req where call: "call = (now1, now2, req)"
    by (cases call) auto
  have valid: "truthy (map_of req ''userId'')" "truthy (map_of req ''action'')"
    using Cons.prems(2) call by (auto simp: valid_activity_def)
  obtain us' where us': "JNull \<notin> set us'"
    and step: "api_activity now1 now2 req
        (Dir c (Present True True (Doc (JArr us))) (Present True True (Doc (JArr evs))))
      = (Reply 200 (JObj [(''success'', JBool True)]),
         Dir c (Present True True (Doc (JArr us')))
           (Present True True (Doc (JArr (last_entries 1000 (evs @ [new_event now2 req]))))))"
    using api_activity_serving [OF Cons.prems(1) valid] by blast
  have "length (last_entries 1000 (evs @ [new_event now2 req])) \<le> 1000"
    by (simp add: length_last_entries)
  then have "stored (serve_activity calls
           (Dir c (Present True True (Doc (JArr us')))
              (Present True True (Doc (JArr (last_entries 1000 (evs @ [new_event now2 req]))))))) ACTIVITY_FILE
         = Some (Doc (JArr (last_entries 1000
             (last_entries 1000 (evs @ [new_event now2 req]) @ map event_of calls))))"
    using Cons.IH [OF us'] Cons.prems(2) by simp
  then show ?case
    by (simp add: call step last_entries_again event_of_call)
qed

lemma log_activity_status_ok:
  "status (fst (log_activity now2 req s)) = 200 \<Longrightarrow>
     \<exists>activity. readActivity s = JArr activity
       \<and> stored (snd (log_activity now2 req s)) ACTIVITY_FILE
           = Some (Doc (JArr (keep_last_1000 (activity @ [new_event now2 req]))))"
  by (cases "readActivity s")
     (auto simp: log_activity_def writeActivity_def JSON_stringify_def status_activity_failed
                 fs_writeFile_Inr_stored
           split: sum.splits)

lemma log_activity_status_bad:
  "status (fst (log_activity now2 req s)) \<noteq> 200 \<Longrightarrow> snd (log_activity now2 req s) = s"
  by (cases "readActivity s")
     (auto simp: log_activity_def writeActivity_def JSON_stringify_def status_activity_failed
           split: sum.splits)

lemma api_activity_steps:
  assumes "truthy (map_of req ''userId'')" and "truthy (map_of req ''action'')"
  shows "api_activity now1 now2 req s =
      (case touch_user now1 req s of
         Inl e \<Rightarrow> (activity_failed, s)
       | Inr s1 \<Rightarrow> log_activity now2 req s1)"
  using assms by (simp add: api_activity_def)

lemma api_activity_ok_valid:
  assumes ok: "status (fst (api_activity now1 now2 req s)) = 200"
  shows "truthy (map_of req ''userId'') \<and> truthy (map_of req ''action'')"
proof (rule ccontr)
  assume "\<not> ?thesis"
  then have "api_activity now1 now2 req s = (Reply 400 missing_required_fields, s)"
    by (intro activity_rejects) auto
  then show False using ok by simp
qed

lemma api_activity_ok_stored:
  assumes ok: "status (fst (api_activity now1 now2 req s)) = 200"
  shows "\<exists>old. readActivity s = JArr old
         \<and> stored (snd (api_activity now1 now2 req s)) ACTIVITY_FILE
             = Some (Doc (JArr (keep_last_1000 (old @ [new_event now2 req]))))"
proof -
  have valid: "truthy (map_of req ''userId'')" "truthy (map_of req ''action'')"
    using api_activity_ok_valid [OF ok] by simp_all
  note step = api_activity_steps [OF valid, of now1 now2 s]
  show ?thesis
  proof (cases "touch_user now1 req s")
    case (Inl e)
    then have "status (fst (api_activity now1 now2 req s)) = 500"
      by (simp add: step status_activity_failed)
    then show ?thesis using ok by simp
  next
    case (Inr s1)
    then have eq: "api_activity now1 now2 req s = log_activity now2 req s1"
      by (simp add: step)
    have same: "readActivity s1 = readActivity s"
      using touch_user_activity_file [OF Inr] by (simp add: readActivity_def read_json_cases)
    have "status (fst (log_activity now2 req s1)) = 200"
      using ok unfolding eq .
    from log_activity_status_ok [OF this] show ?thesis
      unfolding eq same .
  qed
qed

lemma api_activity_failed_stored:
  assumes bad: "status (fst (api_activity now1 now2 req s)) \<noteq> 200"
  shows "file_at (snd (api_activity now1 now2 req s)) ACTIVITY_FILE = file_at s ACTIVITY_FILE"
proof (cases "truthy (map_of req ''userId'') \<and> truthy (map_of req ''action'')")
  case False
  then show ?thesis by (simp add: activity_rejects)
next
  case True
  then have step: "api_activity now1 now2 req s =
      (case touch_user now1 req s of
         Inl e \<Rightarrow> (activity_failed, s)
       | Inr s1 \<Rightarrow> log_activity now2 req s1)"
    by (simp add: api_activity_steps)
  show ?thesis
  proof (cases "touch_user now1 req s")
    case (Inl e)
    then show ?thesis by (simp add: step)
  next
    case (Inr s1)
    then have eq: "api_activity now1 now2 req s = log_activity now2 req s1"
      by (simp add: step)
    have "status (fst (log_activity now2 req s1)) \<noteq> 200"
      using bad unfolding eq .
    then have "snd (log_activity now2 req s1) = s1"
      by (rule log_activity_status_bad)
    then show ?thesis
      using touch_user_activity_file [OF Inr] by (simp add: eq)
  qed
qed
text \<open>
  Claim C10. When the request's \<open>userId\<close> is the \<open>id\<close> of a stored user, the first
  such user being at index \<open>i\<close>, and the users file can be written, the users stored
  afterwards are as many as before and in the same order, every user but the one at
  \<open>i\<close> is the same, and of that one only \<open>lastActive\<close> differs: it is the request's
  \<open>timestamp\<close>, or the current time when the request has none.
\<close>

theorem activity_changes_only_last_active:
  assumes "truthy (map_of req ''userId'')" and "truthy (map_of req ''action'')"
    and "readUsers s = JArr users"
    and "i < length users"
    and "\<forall>j<i. users ! j \<noteq> JNull
           \<and> \<not> strict_eq (field (users ! j) ''id'') (map_of req ''userId'')"
    and "strict_eq (field (users ! i) ''id'') (map_of req ''userId'')"
    and "writable_at s USERS_FILE"
  shows "\<exists>users'.
           stored (snd (api_activity now1 now2 req s)) USERS_FILE = Some (Doc (JArr users'))
           \<and> length users' = length users
           \<and> (\<forall>j<length users. j \<noteq> i \<longrightarrow> users' ! j = users ! j)
           \<and> (\<forall>k. k \<noteq> ''lastActive'' \<longrightarrow> field (users' ! i) k = field (users ! i) k)
           \<and> field (users' ! i) ''lastActive''
               = Some (js_or (map_of req ''timestamp'') (JStr now1))"
proof -
  let ?v = "js_or (map_of req ''timestamp'') (JStr now1)"
  obtain kvs where kvs: "users ! i = JObj kvs"
    and touch: "touch_user now1 req s
      = fs_writeFile s USERS_FILE (Doc (JArr (users[i := JObj (AList.update ''lastActive'' ?v kvs)])))"
    using touch_user_known [OF assms(1) assms(3) assms(4) _ assms(6), of now1] assms(5) by blast
  let ?users' = "users[i := JObj (AList.update ''lastActive'' ?v kvs)]"
  obtain s1 where s1: "fs_writeFile s USERS_FILE (Doc (JArr ?users')) = Inr s1"
    using fs_writeFile_writable [OF assms(7)] by blast
  have "api_activity now1 now2 req s = log_activity now2 req s1"
    using assms(1,2) touch s1 by (simp add: api_activity_def)
  then have "stored (snd (api_activity now1 now2 req s)) USERS_FILE = Some (Doc (JArr ?users'))"
    using fs_writeFile_Inr_stored [OF s1] by (simp add: stored_def log_activity_users_file)
  moreover have "length ?users' = length users" by simp
  moreover have "\<forall>j<length users. j \<noteq> i \<longrightarrow> ?users' ! j = users ! j" by simp
  moreover have "\<forall>k. k \<noteq> ''lastActive'' \<longrightarrow> field (?users' ! i) k = field (users ! i) k"
    using assms(4) kvs by (simp add: update_conv')
  moreover have "field (?users' ! i) ''lastActive'' = Some ?v"
    using assms(4) by (simp add: update_conv')
  ultimately show ?thesis by blast
qed

text \<open>
  Claim C6. When no stored user has the request's \<open>userId\<close>, the user step
  (\<open>touch_user\<close>) neither fails nor writes: the users file is left as it is, and for an
  activity file that loads as an array and can be written the request is answered with
  status 200 and \<^verbatim>\<open>{success: true}\<close>, the new event being stored after the (at most 999
  last) old ones.
\<close>

theorem unknown_user_is_tolerated:
  assumes "truthy (map_of req ''userId'')" and "truthy (map_of req ''action'')"
    and "readUsers s = JArr users"
    and "\<forall>u\<in>set users. u \<noteq> JNull \<and> \<not> strict_eq (field u ''id'') (map_of req ''userId'')"
    and "readActivity s = JArr evs"
    and "writable_at s ACTIVITY_FILE"
  shows "touch_user now1 req s = Inr s
         \<and> fst (api_activity now1 now2 req s) = Reply 200 (JObj [(''success'', JBool True)])
         \<and> file_at (snd (api_activity now1 now2 req s)) USERS_FILE = file_at s USERS_FILE
         \<and> stored (snd (api_activity now1 now2 req s)) ACTIVITY_FILE
             = Some (Doc (JArr (drop (length evs - 999) evs @ [new_event now2 req])))"
proof -
  have skip: "touch_user now1 req s = Inr s"
    using touch_user_unknown [OF assms(3)] assms(4) by blast
  then have eq: "api_activity now1 now2 req s = log_activity now2 req s"
    using assms(1,2) by (simp add: api_activity_def)
  obtain s' where s': "fs_writeFile s ACTIVITY_FILE
      (Doc (JArr (keep_last_1000 (evs @ [new_event now2 req])))) = Inr s'"
    using fs_writeFile_writable [OF assms(6)] by blast
  have log: "log_activity now2 req s = (Reply 200 (JObj [(''success'', JBool True)]), s')"
    using s' by (simp add: log_activity_def assms(5) writeActivity_def JSON_stringify_def
                           js_object_def)
  have "file_at s' USERS_FILE = file_at s USERS_FILE"
    using fs_writeFile_Inr [OF s', of USERS_FILE] by simp
  moreover have "stored s' ACTIVITY_FILE
      = Some (Doc (JArr (drop (length evs - 999) evs @ [new_event now2 req])))"
    using fs_writeFile_Inr_stored [OF s'] by (simp add: keep_last_1000_snoc)
  ultimately show ?thesis by (simp add: skip eq log)
qed

theorem activity_changes_only_last_active_witness:
  "truthy (map_of [(''userId'', JStr ''u2''), (''action'', JStr ''start''),
                   (''timestamp'', JStr ''2024-01-02T10:00:00.000Z'')] ''userId'')
   \<and> readUsers (Dir True (Present True True (Doc (JArr
         [JObj [(''id'', JStr ''u1''), (''lastActive'', JStr ''2024-01-01T09:00:00.000Z'')],
          JObj [(''id'', JStr ''u2''), (''username'', JStr ''b''), (''email'', JStr ''b@x.com''),
                (''registeredAt'', JStr ''2023-12-31T00:00:00.000Z''), (''version'', JStr ''1.0.0''),
                (''lastActive'', JStr ''2024-01-01T09:00:00.000Z'')]]))) Absent)
       = JArr
         [JObj [(''id'', JStr ''u1''), (''lastActive'', JStr ''2024-01-01T09:00:00.000Z'')],
          JObj [(''id'', JStr ''u2''), (''username'', JStr ''b''), (''email'', JStr ''b@x.com''),
                (''registeredAt'', JStr ''2023-12-31T00:00:00.000Z''), (''version'', JStr ''1.0.0''),
                (''lastActive'', JStr ''2024-01-01T09:00:00.000Z'')]]
   \<and> stored (snd (api_activity ''2024-01-02T10:00:01.000Z'' ''2024-01-02T10:00:01.002Z''
         [(''userId'', JStr ''u2''), (''action'', JStr ''start''),
          (''timestamp'', JStr ''2024-01-02T10:00:00.000Z'')]
         (Dir True (Present True True (Doc (JArr
           [JObj [(''id'', JStr ''u1''), (''lastActive'', JStr ''2024-01-01T09:00:00.000Z'')],
            JObj [(''id'', JStr ''u2''), (''username'', JStr ''b''), (''email'', JStr ''b@x.com''),
                  (''registeredAt'', JStr ''2023-12-31T00:00:00.000Z''), (''version'', JStr ''1.0.0''),
                  (''lastActive'', JStr ''2024-01-01T09:00:00.000Z'')]]))) Absent))) USERS_FILE
       = Some (Doc (JArr
           [JObj [(''id'', JStr ''u1''), (''lastActive'', JStr ''2024-01-01T09:00:00.000Z'')],
            JObj [(''id'', JStr ''u2''), (''username'', JStr ''b''), (''email'', JStr ''b@x.com''),
                  (''registeredAt'', JStr ''2023-12-31T00:00:00.000Z''), (''version'', JStr ''1.0.0''),
                  (''lastActive'', JStr ''2024-01-02T10:00:00.000Z'')]]))
   \<and> (\<exists>users'.
         stored (snd (api_activity ''2024-01-02T10:00:01.000Z'' ''2024-01-02T10:00:01.002Z''
           [(''userId'', JStr ''u2''), (''action'', JStr ''start''),
            (''timestamp'', JStr ''2024-01-02T10:00:00.000Z'')]
           (Dir True (Present True True (Doc (JArr
             [JObj [(''id'', JStr ''u1''), (''lastActive'', JStr ''2024-01-01T09:00:00.000Z'')],
              JObj [(''id'', JStr ''u2''), (''username'', JStr ''b''), (''email'', JStr ''b@x.com''),
                    (''registeredAt'', JStr ''2023-12-31T00:00:00.000Z''), (''version'', JStr ''1.0.0''),
                    (''lastActive'', JStr ''2024-01-01T09:00:00.000Z'')]]))) Absent))) USERS_FILE
           = Some (Doc (JArr users'))
         \<and> length users' = 2
         \<and> users' ! 0 = JObj [(''id'', JStr ''u1''), (''lastActive'', JStr ''2024-01-01T09:00:00.000Z'')]
         \<and> field (users' ! 1) ''email'' = Some (JStr ''b@x.com'')
         \<and> field (users' ! 1) ''lastActive'' = Some (JStr ''2024-01-02T10:00:00.000Z''))"
proof -
  let ?u1 = "JObj [(''id'', JStr ''u1''), (''lastActive'', JStr ''2024-01-01T09:00:00.000Z'')]"
  let ?u2 = "JObj [(''id'', JStr ''u2''), (''username'', JStr ''b''), (''email'', JStr ''b@x.com''),
                (''registeredAt'', JStr ''2023-12-31T00:00:00.000Z''), (''version'', JStr ''1.0.0''),
                (''lastActive'', JStr ''2024-01-01T09:00:00.000Z'')]"
  let ?req = "[(''userId'', JStr ''u2''), (''action'', JStr ''start''),
               (''timestamp'', JStr ''2024-01-02T10:00:00.000Z'')]"
  let ?s = "Dir True (Present True True (Doc (JArr [?u1, ?u2]))) Absent"
  have users: "readUsers ?s = JArr [?u1, ?u2]"
    by (simp add: readUsers_def read_json_cases)
  have before: "\<forall>j<1. [?u1, ?u2] ! j \<noteq> JNull
      \<and> \<not> strict_eq (field ([?u1, ?u2] ! j) ''id'') (map_of ?req ''userId'')"
    by (simp add: strict_eq_def)
  have found: "strict_eq (field ([?u1, ?u2] ! 1) ''id'') (map_of ?req ''userId'')"
    by (simp add: strict_eq_def)
  have run: "stored (snd (api_activity ''2024-01-02T10:00:01.000Z''
        ''2024-01-02T10:00:01.002Z'' ?req ?s)) USERS_FILE
      = Some (Doc (JArr [?u1, JObj [(''id'', JStr ''u2''), (''username'', JStr ''b''),
                (''email'', JStr ''b@x.com''),
                (''registeredAt'', JStr ''2023-12-31T00:00:00.000Z''), (''version'', JStr ''1.0.0''),
                (''lastActive'', JStr ''2024-01-02T10:00:00.000Z'')]]))"
    by (simp add: api_activity_def touch_user_def log_activity_def readUsers_def readActivity_def
                  read_json_cases writeUsers_def writeActivity_def JSON_stringify_def has_id_def
                  get_prop_def strict_eq_def js_or_def keep_last_1000_def stored_def)
  from activity_changes_only_last_active
         [of ?req ?s "[?u1, ?u2]" 1 "''2024-01-02T10:00:01.000Z''" "''2024-01-02T10:00:01.002Z''",
          OF _ _ users _ before found]
  obtain users' where
    "stored (snd (api_activity ''2024-01-02T10:00:01.000Z''
        ''2024-01-02T10:00:01.002Z'' ?req ?s)) USERS_FILE = Some (Doc (JArr users'))"
    "length users' = length [?u1, ?u2]"
    "\<forall>j<length [?u1, ?u2]. j \<noteq> 1 \<longrightarrow> users' ! j = [?u1, ?u2] ! j"
    "\<forall>k. k \<noteq> ''lastActive'' \<longrightarrow> field (users' ! 1) k = field ([?u1, ?u2] ! 1) k"
    "field (users' ! 1) ''lastActive''
       = Some (js_or (map_of ?req ''timestamp'') (JStr ''2024-01-02T10:00:01.000Z''))"
    by (auto simp: writable_at_def)
  then have "\<exists>users'.
         stored (snd (api_activity ''2024-01-02T10:00:01.000Z''
           ''2024-01-02T10:00:01.002Z'' ?req ?s)) USERS_FILE = Some (Doc (JArr users'))
         \<and> length users' = 2
         \<and> users' ! 0 = ?u1
         \<and> field (users' ! 1) ''email'' = Some (JStr ''b@x.com'')
         \<and> field (users' ! 1) ''lastActive'' = Some (JStr ''2024-01-02T10:00:00.000Z'')"
    by (intro exI [of _ users']) (simp add: js_or_def)
  then show ?thesis
    using users run by simp
qed

theorem unknown_user_is_tolerated_witness:
  "readUsers (Dir True (Present True True (Doc (JArr [JObj [(''id'', JStr ''u1'')]])))
                (Present True True (Doc (JArr []))))
     = JArr [JObj [(''id'', JStr ''u1'')]]
   \<and> \<not> strict_eq (field (JObj [(''id'', JStr ''u1'')]) ''id'')
          (map_of [(''userId'', JStr ''ghost''), (''action'', JStr ''start'')] ''userId'')
   \<and> touch_user ''2024-01-02T10:00:00.000Z''
          [(''userId'', JStr ''ghost''), (''action'', JStr ''start'')]
          (Dir True (Present True True (Doc (JArr [JObj [(''id'', JStr ''u1'')]])))
             (Present True True (Doc (JArr []))))
       = Inr (Dir True (Present True True (Doc (JArr [JObj [(''id'', JStr ''u1'')]])))
                (Present True True (Doc (JArr []))))
   \<and> fst (api_activity ''2024-01-02T10:00:00.000Z'' ''2024-01-02T10:00:00.001Z''
          [(''userId'', JStr ''ghost''), (''action'', JStr ''start'')]
          (Dir True (Present True True (Doc (JArr [JObj [(''id'', JStr ''u1'')]])))
             (Present True True (Doc (JArr [])))))
       = Reply 200 (JObj [(''success'', JBool True)])
   \<and> file_at (snd (api_activity ''2024-01-02T10:00:00.000Z'' ''2024-01-02T10:00:00.001Z''
          [(''userId'', JStr ''ghost''), (''action'', JStr ''start'')]
          (Dir True (Present True True (Doc (JArr [JObj [(''id'', JStr ''u1'')]])))
             (Present True True (Doc (JArr [])))))) USERS_FILE
       = Present True True (Doc (JArr [JObj [(''id'', JStr ''u1'')]]))
   \<and> stored (snd (api_activity ''2024-01-02T10:00:00.000Z'' ''2024-01-02T10:00:00.001Z''
          [(''userId'', JStr ''ghost''), (''action'', JStr ''start'')]
          (Dir True (Present True True (Doc (JArr [JObj [(''id'', JStr ''u1'')]])))
             (Present True True (Doc (JArr [])))))) ACTIVITY_FILE
       = Some (Doc (JArr [JObj [(''userId'', JStr ''ghost''), (''action'', JStr ''start''),
                          (''messagesSent'', JNum 0),
                          (''timestamp'', JStr ''2024-01-02T10:00:00.001Z'')]]))"
  using unknown_user_is_tolerated
    [of "[(''userId'', JStr ''ghost''), (''action'', JStr ''start'')]"
        "Dir True (Present True True (Doc (JArr [JObj [(''id'', JStr ''u1'')]])))
           (Present True True (Doc (JArr [])))"
        "[JObj [(''id'', JStr ''u1'')]]" "[]"
        "''2024-01-02T10:00:00.000Z''" "''2024-01-02T10:00:00.001Z''"]
  by (simp add: readUsers_def readActivity_def read_json_cases strict_eq_def writable_at_def
                new_event_def js_object_def js_or_def)

text \<open>
  Claim C2. A successful activity request (status 200) leaves in the activity file the
  loaded collection with the new event appended, cut to its last \<open>min (n + 1) 1000\<close>
  entries, \<open>n\<close> being the number of entries loaded: what is dropped is dropped from the
  front. A request that is not successful leaves the activity file as it was. With both
  files in place, the activity file empty, and \<open>calls\<close> a sequence of valid requests,
  the file holds at the end the last 1000 events of the sequence, in order; for 1005
  requests these are all but the first five.
\<close>

theorem activity_keeps_last_1000:
  "(status (fst (api_activity now1 now2 req s)) = 200 \<longrightarrow>
      (\<exists>old. readActivity s = JArr old
         \<and> stored (snd (api_activity now1 now2 req s)) ACTIVITY_FILE
             = Some (Doc (JArr (last_entries (min (length old + 1) 1000) (old @ [new_event now2 req]))))
         \<and> length (last_entries (min (length old + 1) 1000) (old @ [new_event now2 req]))
             = min (length old + 1) 1000))
   \<and> (status (fst (api_activity now1 now2 req s')) \<noteq> 200 \<longrightarrow>
        file_at (snd (api_activity now1 now2 req s')) ACTIVITY_FILE = file_at s' ACTIVITY_FILE)
   \<and> (JNull \<notin> set users \<and> (\<forall>call\<in>set calls. valid_activity call) \<longrightarrow>
        stored (serve_activity calls
            (Dir c (Present True True (Doc (JArr users))) (Present True True (Doc (JArr [])))))
              ACTIVITY_FILE
          = Some (Doc (JArr (last_entries 1000 (map event_of calls))))
        \<and> (length calls = 1005 \<longrightarrow>
              last_entries 1000 (map event_of calls) = drop 5 (map event_of calls)
              \<and> length (drop 5 (map event_of calls)) = 1000))"
proof (intro conjI impI)
  assume ok: "status (fst (api_activity now1 now2 req s)) = 200"
  obtain old where old: "readActivity s = JArr old"
    and kept: "stored (snd (api_activity now1 now2 req s)) ACTIVITY_FILE
             = Some (Doc (JArr (keep_last_1000 (old @ [new_event now2 req]))))"
    using api_activity_ok_stored [OF ok] by blast
  have cut: "keep_last_1000 (old @ [new_event now2 req])
        = last_entries (min (length old + 1) 1000) (old @ [new_event now2 req])"
    by (auto simp: keep_last_1000_def last_entries_def)
  have len: "length (last_entries (min (length old + 1) 1000) (old @ [new_event now2 req]))
        = min (length old + 1) 1000"
    by (simp add: length_last_entries)
  show "\<exists>old. readActivity s = JArr old
         \<and> stored (snd (api_activity now1 now2 req s)) ACTIVITY_FILE
             = Some (Doc (JArr (last_entries (min (length old + 1) 1000) (old @ [new_event now2 req]))))
         \<and> length (last_entries (min (length old + 1) 1000) (old @ [new_event now2 req]))
             = min (length old + 1) 1000"
    using old kept len unfolding cut by blast
next
  assume "status (fst (api_activity now1 now2 req s')) \<noteq> 200"
  then show "file_at (snd (api_activity now1 now2 req s')) ACTIVITY_FILE = file_at s' ACTIVITY_FILE"
    by (rule api_activity_failed_stored)
next
  assume "JNull \<notin> set users \<and> (\<forall>call\<in>set calls. valid_activity call)"
  then show "stored (serve_activity calls
            (Dir c (Present True True (Doc (JArr users))) (Present True True (Doc (JArr [])))))
              ACTIVITY_FILE
          = Some (Doc (JArr (last_entries 1000 (map event_of calls))))"
    using serve_activity_stored [of users calls "[]" c] by simp
next
  assume "length calls = 1005"
  then show "last_entries 1000 (map event_of calls) = drop 5 (map event_of calls)"
    by (simp add: last_entries_def)
next
  assume "length calls = 1005"
  then show "length (drop 5 (map event_of calls)) = 1000" by simp
qed

theorem activity_keeps_last_1000_witness:
  "status (fst (api_activity ''t1'' ''t2'' [(''userId'', JStr ''u1''), (''action'', JStr ''stop'')]
      (Dir True (Present True True (Doc (JArr []))) (Present True True (Doc (JArr [JNum 7])))))) = 200
   \<and> stored (snd (api_activity ''t1'' ''t2''
        [(''userId'', JStr ''u1''), (''action'', JStr ''stop'')]
        (Dir True (Present True True (Doc (JArr []))) (Present True True (Doc (JArr [JNum 7]))))))
          ACTIVITY_FILE
       = Some (Doc (JArr [JNum 7, new_event ''t2'' [(''userId'', JStr ''u1''), (''action'', JStr ''stop'')]]))
   \<and> status (fst (api_activity ''t1'' ''t2'' [(''userId'', JStr ''u1''), (''action'', JStr ''stop'')]
        (NoDir True))) \<noteq> 200
   \<and> file_at (snd (api_activity ''t1'' ''t2'' [(''userId'', JStr ''u1''), (''action'', JStr ''stop'')]
        (NoDir True))) ACTIVITY_FILE = Absent
   \<and> valid_activity (''t1'', ''t2'', [(''userId'', JStr ''u1''), (''action'', JStr ''stop'')])
   \<and> length (replicate 1005 (''t1'', ''t2'', [(''userId'', JStr ''u1''), (''action'', JStr ''stop'')]))
       = 1005
   \<and> stored (serve_activity
        (replicate 1005 (''t1'', ''t2'', [(''userId'', JStr ''u1''), (''action'', JStr ''stop'')]))
        (Dir True (Present True True (Doc (JArr [JObj [(''id'', JStr ''u1'')]])))
           (Present True True (Doc (JArr [])))))
          ACTIVITY_FILE
       = Some (Doc (JArr (drop 5 (map event_of
           (replicate 1005 (''t1'', ''t2'', [(''userId'', JStr ''u1''), (''action'', JStr ''stop'')]))))))"
proof -
  let ?req = "[(''userId'', JStr ''u1''), (''action'', JStr ''stop'')]"
  let ?s = "Dir True (Present True True (Doc (JArr []))) (Present True True (Doc (JArr [JNum 7])))"
  have run: "api_activity ''t1'' ''t2'' ?req ?s
      = (Reply 200 (JObj [(''success'', JBool True)]),
         Dir True (Present True True (Doc (JArr [])))
           (Present True True (Doc (JArr [JNum 7, new_event ''t2'' ?req]))))"
    by (simp add: api_activity_def touch_user_def log_activity_def readUsers_def readActivity_def
                  read_json_cases writeActivity_def JSON_stringify_def keep_last_1000_def
                  js_object_def)
  have fail: "api_activity ''t1'' ''t2'' ?req (NoDir True) = (activity_failed, NoDir True)"
    by (simp add: api_activity_def touch_user_def log_activity_def readUsers_def readActivity_def
                  read_json_cases writeActivity_def)
  have valid: "valid_activity (''t1'', ''t2'', ?req)"
    by (simp add: valid_activity_def)
  show ?thesis
    using activity_keeps_last_1000
      [of "''t1''" "''t2''" ?req ?s "NoDir True" "[JObj [(''id'', JStr ''u1'')]]"
          "replicate 1005 (''t1'', ''t2'', ?req)" True]
    by (simp add: run fail valid status_activity_failed stored_def)
qed

section \<open>Registration\<close>

lemma same_user_total:
  "u \<noteq> JNull \<Longrightarrow>
     same_user (map_of req ''id'') (map_of req ''email'') u = Inr (matches_request req u)"
  by (simp add: same_user_def get_prop_def matches_request_def)

lemma same_user_null: "same_user a b JNull = Inl TypeError"
  by (simp add: same_user_def get_prop_def)

lemma js_find_total:
  "(\<And>x. x \<in> set xs \<Longrightarrow> p x = Inr (q x)) \<Longrightarrow> js_find p xs = Inr (List.find q xs)"
  by (induction xs) auto

lemma js_find_none: "js_find p xs = Inr None \<Longrightarrow> x \<in> set xs \<Longrightarrow> p x = Inr False"
  by (induction xs) (auto split: sum.splits if_splits)

lemma js_find_Some: "js_find p xs = Inr (Some x) \<Longrightarrow> p x = Inr True"
  by (induction xs) (auto split: sum.splits if_splits)

lemma matches_request_truthy:
  assumes "valid_register req" and "matches_request req u"
  shows "truthy (Some u)"
proof -
  obtain kvs where "u = JObj kvs"
    using assms strict_eq_truthy_object [of u]
    by (auto simp: valid_register_def matches_request_def)
  then show ?thesis by simp
qed

lemma already_registered_eq:
  "already_registered (Some u)
     = Reply 200 (JObj [(''message'', JStr ''User already registered''), (''user'', u)])"
  by (simp add: already_registered_def js_object_def)

lemma api_register_steps:
  assumes "valid_register req"
  shows "api_register now1 now2 req s =
     (case as_array (readUsers s) of
        Inl e \<Rightarrow> (registration_failed, s)
      | Inr users \<Rightarrow>
          (case js_find (same_user (map_of req ''id'') (map_of req ''email'')) users of
             Inl e \<Rightarrow> (registration_failed, s)
           | Inr existingUser \<Rightarrow>
               if truthy existingUser then (already_registered existingUser, s)
               else (case fs_writeFile s USERS_FILE (Doc (JArr (users @ [new_user now1 now2 req]))) of
                       Inl e \<Rightarrow> (registration_failed, s)
                     | Inr s' \<Rightarrow>
                         (Reply 200 (js_object [(''success'', Some (JBool True)),
                                                (''user'', Some (new_user now1 now2 req))]), s'))))"
  using assms
  unfolding api_register_def Let_def writeUsers_def JSON_stringify_def valid_register_def
  by simp

lemma register_existing:
  assumes "valid_register req" and "readUsers s = JArr users" and "JNull \<notin> set users"
    and "\<exists>u\<in>set users. matches_request req u"
  shows "\<exists>u. List.find (matches_request req) users = Some u
           \<and> api_register now1 now2 req s = (already_registered (Some u), s)"
proof -
  have find: "js_find (same_user (map_of req ''id'') (map_of req ''email'')) users
                = Inr (List.find (matches_request req) users)"
  proof (rule js_find_total)
    fix u assume "u \<in> set users"
    then have "u \<noteq> JNull" using assms(3) by auto
    then show "same_user (map_of req ''id'') (map_of req ''email'') u = Inr (matches_request req u)"
      by (rule same_user_total)
  qed
  obtain u where u: "List.find (matches_request req) users = Some u"
    using assms(4) by (cases "List.find (matches_request req) users") (auto simp: find_None_iff)
  then have "matches_request req u"
    by (auto simp: find_Some_iff)
  then have "truthy (Some u)"
    using assms(1) by (rule matches_request_truthy [rotated])
  then have "api_register now1 now2 req s = (already_registered (Some u), s)"
    using assms(2) find u by (simp add: api_register_steps [OF assms(1)])
  then show ?thesis using u by blast
qed

lemma register_changes:
  assumes "snd (api_register now1 now2 req s) \<noteq> s"
  shows "valid_register req
         \<and> (\<exists>users. readUsers s = JArr users
               \<and> (\<forall>u\<in>set users. u \<noteq> JNull)
               \<and> fs_writeFile s USERS_FILE (Doc (JArr (users @ [new_user now1 now2 req])))
                   = Inr (snd (api_register now1 now2 req s)))"
proof -
  have valid: "valid_register req"
  proof (rule ccontr)
    assume "\<not> valid_register req"
    then have "api_register now1 now2 req s = (Reply 400 missing_required_fields, s)"
      by (intro register_rejects) (auto simp: valid_register_def)
    then show False using assms by simp
  qed
  note step = api_register_steps [OF valid, of now1 now2 s]
  let ?p = "same_user (map_of req ''id'') (map_of req ''email'')"
  obtain users where users: "readUsers s = JArr users"
    using assms by (cases "readUsers s") (auto simp: step)
  obtain ex where ex: "js_find ?p users = Inr ex"
    using assms users by (cases "js_find ?p users") (auto simp: step)
  have nt: "\<not> truthy ex"
    using assms users ex by (auto simp: step)
  have "ex = None"
  proof (cases ex)
    case None
    then show ?thesis .
  next
    case (Some u)
    then have su: "?p u = Inr True" using ex js_find_Some by blast
    then have "u \<noteq> JNull" by (auto simp: same_user_null)
    then have "matches_request req u" using su by (simp add: same_user_total)
    then have "truthy (Some u)" using valid by (rule matches_request_truthy [rotated])
    then show ?thesis using nt Some by simp
  qed
  then have none: "js_find ?p users = Inr None" using ex by simp
  have nonnull: "\<forall>u\<in>set users. u \<noteq> JNull"
  proof
    fix u assume "u \<in> set users"
    then have "?p u = Inr False" using js_find_none [OF none] by blast
    then show "u \<noteq> JNull" by (auto simp: same_user_null)
  qed
  have "fs_writeFile s USERS_FILE (Doc (JArr (users @ [new_user now1 now2 req])))
          = Inr (snd (api_register now1 now2 req s))"
    using assms users none
    by (cases "fs_writeFile s USERS_FILE (Doc (JArr (users @ [new_user now1 now2 req])))")
       (auto simp: step)
  then show ?thesis using valid users nonnull by blast
qed

lemma new_user_fields:
  "valid_register req \<Longrightarrow>
     new_user now1 now2 req \<noteq> JNull
     \<and> field (new_user now1 now2 req) ''id'' = map_of req ''id''
     \<and> field (new_user now1 now2 req) ''email'' = map_of req ''email''"
  by (cases "map_of req ''id''"; cases "map_of req ''username''"; cases "map_of req ''email''")
     (auto simp: new_user_def js_object_def valid_register_def)

lemma register_second_call:
  assumes same: "strict_eq (map_of req1 ''id'') (map_of req2 ''id'')
                 \<or> strict_eq (map_of req1 ''email'') (map_of req2 ''email'')"
    and rb: "reads_back (file_at s USERS_FILE)"
    and changed: "snd (api_register t1 t2 req1 s) \<noteq> s"
  shows "snd (api_register t3 t4 req2 (snd (api_register t1 t2 req1 s)))
           = snd (api_register t1 t2 req1 s)
         \<and> (valid_register req2 \<longrightarrow>
              (\<exists>u. matches_request req2 u
                 \<and> fst (api_register t3 t4 req2 (snd (api_register t1 t2 req1 s)))
                     = already_registered (Some u)))"
proof -
  let ?s1 = "snd (api_register t1 t2 req1 s)"
  let ?nu = "new_user t1 t2 req1"
  obtain users where valid1: "valid_register req1"
    and nonnull: "\<forall>u\<in>set users. u \<noteq> JNull"
    and w: "fs_writeFile s USERS_FILE (Doc (JArr (users @ [?nu]))) = Inr ?s1"
    using register_changes [OF changed] by blast
  have "file_at ?s1 USERS_FILE
      = (case file_at s USERS_FILE of
           Absent \<Rightarrow> Present True True (Doc (JArr (users @ [?nu])))
         | Present r w c \<Rightarrow> Present r w (Doc (JArr (users @ [?nu]))))"
    using fs_writeFile_Inr [OF w, of USERS_FILE] by simp
  then have users1: "readUsers ?s1 = JArr (users @ [?nu])"
    using rb by (auto simp: readUsers_def read_json_cases reads_back_def split: datafile.splits)
  have nu: "?nu \<noteq> JNull" "field ?nu ''id'' = map_of req1 ''id''"
    "field ?nu ''email'' = map_of req1 ''email''"
    using new_user_fields [OF valid1] by simp_all
  have nonnull1: "JNull \<notin> set (users @ [?nu])"
    using nonnull nu(1) by auto
  have m: "matches_request req2 ?nu"
    using same nu(2,3) by (auto simp: matches_request_def)
  show ?thesis
  proof (cases "valid_register req2")
    case False
    then have "api_register t3 t4 req2 ?s1 = (Reply 400 missing_required_fields, ?s1)"
      by (intro register_rejects) (auto simp: valid_register_def)
    then show ?thesis using False by simp
  next
    case True
    have "\<exists>u\<in>set (users @ [?nu]). matches_request req2 u"
      using m by auto
    then obtain u where u: "List.find (matches_request req2) (users @ [?nu]) = Some u"
      and r: "api_register t3 t4 req2 ?s1 = (already_registered (Some u), ?s1)"
      using register_existing [OF True users1 nonnull1] by blast
    have "matches_request req2 u"
      using u by (auto simp: find_Some_iff)
    then show ?thesis using r by auto
  qed
qed

text \<open>
  Claim C1. For a valid register request and stored users none of which is \<open>null\<close>: if
  a stored user has the request's \<open>id\<close> or \<open>email\<close>, the answer is status 200 with
  the message \<open>User already registered\<close> and the first such stored user, and nothing
  is written. And of two register requests with the same \<open>id\<close>, or the same \<open>email\<close>,
  served one after the other (on a users file that is not unreadable), at most one creates
  a user: if the first changes the storage, the second leaves it as it is, and, when valid,
  is answered with \<open>User already registered\<close> and a stored user that matches it.
\<close>

theorem register_is_idempotent:
  "(valid_register req \<and> readUsers s = JArr users \<and> JNull \<notin> set users
      \<and> (\<exists>u\<in>set users. matches_request req u) \<longrightarrow>
      (\<exists>u. List.find (matches_request req) users = Some u
         \<and> api_register now1 now2 req s
             = (Reply 200 (JObj [(''message'', JStr ''User already registered''), (''user'', u)]),
                s)))
   \<and> ((strict_eq (map_of req1 ''id'') (map_of req2 ''id'')
          \<or> strict_eq (map_of req1 ''email'') (map_of req2 ''email''))
        \<and> reads_back (file_at s' USERS_FILE) \<longrightarrow>
       snd (api_register t1 t2 req1 s') = s'
       \<or> (snd (api_register t3 t4 req2 (snd (api_register t1 t2 req1 s')))
             = snd (api_register t1 t2 req1 s')
          \<and> (valid_register req2 \<longrightarrow>
               (\<exists>u. matches_request req2 u
                  \<and> fst (api_register t3 t4 req2 (snd (api_register t1 t2 req1 s')))
                      = Reply 200 (JObj [(''message'', JStr ''User already registered''),
                                         (''user'', u)])))))"
proof (intro conjI impI)
  assume "valid_register req \<and> readUsers s = JArr users \<and> JNull \<notin> set users
      \<and> (\<exists>u\<in>set users. matches_request req u)"
  then show "\<exists>u. List.find (matches_request req) users = Some u
         \<and> api_register now1 now2 req s
             = (Reply 200 (JObj [(''message'', JStr ''User already registered''), (''user'', u)]),
                s)"
    using register_existing [of req s users now1 now2]
    unfolding already_registered_eq by blast
next
  assume h: "(strict_eq (map_of req1 ''id'') (map_of req2 ''id'')
          \<or> strict_eq (map_of req1 ''email'') (map_of req2 ''email''))
        \<and> reads_back (file_at s' USERS_FILE)"
  show "snd (api_register t1 t2 req1 s') = s'
       \<or> (snd (api_register t3 t4 req2 (snd (api_register t1 t2 req1 s')))
             = snd (api_register t1 t2 req1 s')
          \<and> (valid_register req2 \<longrightarrow>
               (\<exists>u. matches_request req2 u
                  \<and> fst (api_register t3 t4 req2 (snd (api_register t1 t2 req1 s')))
                      = Reply 200 (JObj [(''message'', JStr ''User already registered''),
                                         (''user'', u)]))))"
  proof (cases "snd (api_register t1 t2 req1 s') = s'")
    case True
    then show ?thesis by blast
  next
    case False
    from h have a: "strict_eq (map_of req1 ''id'') (map_of req2 ''id'')
          \<or> strict_eq (map_of req1 ''email'') (map_of req2 ''email'')"
      and b: "reads_back (file_at s' USERS_FILE)"
      by blast+
    show ?thesis
      using register_second_call [OF a b False, of t3 t4]
      unfolding already_registered_eq by blast
  qed
qed

theorem register_is_idempotent_witness:
  "valid_register [(''id'', JStr ''u1''), (''username'', JStr ''a2''), (''email'', JStr ''a2@x.com'')]
   \<and> matches_request [(''id'', JStr ''u1''), (''username'', JStr ''a2''), (''email'', JStr ''a2@x.com'')]
        (JObj [(''id'', JStr ''u1''), (''username'', JStr ''a''), (''email'', JStr ''a@x.com'')])
   \<and> api_register ''t3'' ''t4''
        [(''id'', JStr ''u1''), (''username'', JStr ''a2''), (''email'', JStr ''a2@x.com'')]
        (Dir True (Present True True (Doc (JArr
           [JObj [(''id'', JStr ''u1''), (''username'', JStr ''a''), (''email'', JStr ''a@x.com'')]])))
           Absent)
       = (Reply 200 (JObj [(''message'', JStr ''User already registered''),
            (''user'', JObj [(''id'', JStr ''u1''), (''username'', JStr ''a''),
                             (''email'', JStr ''a@x.com'')])]),
          Dir True (Present True True (Doc (JArr
            [JObj [(''id'', JStr ''u1''), (''username'', JStr ''a''), (''email'', JStr ''a@x.com'')]])))
            Absent)
   \<and> strict_eq (map_of [(''id'', JStr ''u1''), (''username'', JStr ''a''), (''email'', JStr ''a@x.com'')] ''id'')
        (map_of [(''id'', JStr ''u1''), (''username'', JStr ''a2''), (''email'', JStr ''a2@x.com'')] ''id'')
   \<and> reads_back (file_at (Dir True Absent Absent) USERS_FILE)
   \<and> snd (api_register ''t1'' ''t2''
        [(''id'', JStr ''u1''), (''username'', JStr ''a''), (''email'', JStr ''a@x.com'')]
        (Dir True Absent Absent))
       = Dir True (Present True True (Doc (JArr
           [JObj [(''id'', JStr ''u1''), (''username'', JStr ''a''), (''email'', JStr ''a@x.com''),
                  (''registeredAt'', JStr ''t1''), (''version'', JStr ''1.0.0''),
                  (''lastActive'', JStr ''t2'')]]))) Absent
   \<and> snd (api_register ''t3'' ''t4''
        [(''id'', JStr ''u1''), (''username'', JStr ''a2''), (''email'', JStr ''a2@x.com'')]
        (snd (api_register ''t1'' ''t2''
           [(''id'', JStr ''u1''), (''username'', JStr ''a''), (''email'', JStr ''a@x.com'')]
           (Dir True Absent Absent))))
       = snd (api_register ''t1'' ''t2''
           [(''id'', JStr ''u1''), (''username'', JStr ''a''), (''email'', JStr ''a@x.com'')]
           (Dir True Absent Absent))
   \<and> (\<exists>u. matches_request
              [(''id'', JStr ''u1''), (''username'', JStr ''a2''), (''email'', JStr ''a2@x.com'')] u
          \<and> fst (api_register ''t3'' ''t4''
                [(''id'', JStr ''u1''), (''username'', JStr ''a2''), (''email'', JStr ''a2@x.com'')]
                (snd (api_register ''t1'' ''t2''
                   [(''id'', JStr ''u1''), (''username'', JStr ''a''), (''email'', JStr ''a@x.com'')]
                   (Dir True Absent Absent))))
              = Reply 200 (JObj [(''message'', JStr ''User already registered''), (''user'', u)]))"
proof -
  let ?req1 = "[(''id'', JStr ''u1''), (''username'', JStr ''a''), (''email'', JStr ''a@x.com'')]"
  let ?req2 = "[(''id'', JStr ''u1''), (''username'', JStr ''a2''), (''email'', JStr ''a2@x.com'')]"
  let ?u = "JObj [(''id'', JStr ''u1''), (''username'', JStr ''a''), (''email'', JStr ''a@x.com'')]"
  let ?s = "Dir True (Present True True (Doc (JArr [?u]))) Absent"
  let ?s1 = "Dir True (Present True True (Doc (JArr
           [JObj [(''id'', JStr ''u1''), (''username'', JStr ''a''), (''email'', JStr ''a@x.com''),
                  (''registeredAt'', JStr ''t1''), (''version'', JStr ''1.0.0''),
                  (''lastActive'', JStr ''t2'')]]))) Absent"
  have valid: "valid_register ?req2" "valid_register ?req1"
    by (simp_all add: valid_register_def)
  have m: "matches_request ?req2 ?u"
    by (simp add: matches_request_def strict_eq_def)
  have users: "readUsers ?s = JArr [?u]"
    by (simp add: readUsers_def read_json_cases)
  have run1: "snd (api_register ''t1'' ''t2'' ?req1 (Dir True Absent Absent)) = ?s1"
    by (simp add: api_register_steps [OF valid(2)] readUsers_def read_json_cases new_user_def
                  js_object_def js_or_def)
  show ?thesis
    using register_is_idempotent
      [of ?req2 ?s "[?u]" "''t3''" "''t4''" ?req1 ?req2 "Dir True Absent Absent" "''t1''" "''t2''"
          "''t3''" "''t4''"]
    by (simp add: valid m users run1 strict_eq_def reads_back_def)
qed

end
